theory Spec2Isabelle
  imports Main "HOL-Library.Sublist" "HOL-Library.AList"
begin

section \<open>JavaScript values used by the hooks\<close>

text \<open>
  A JavaScript string is a \<^typ>\<open>string\<close>; a value of type \<open>string | null\<close> (or an optional
  string argument) is a \<^typ>\<open>string option\<close>. The hooks test such values for truthiness
  (\<open>if (kbId)\<close>, \<open>kbId || other\<close>): \<open>null\<close>, \<open>undefined\<close> and the empty string are falsy.
\<close>

definition truthy :: "string option \<Rightarrow> bool" where
  "truthy v = (case v of None \<Rightarrow> False | Some s \<Rightarrow> s \<noteq> [])"

text \<open>\<open>a || b\<close> on optional strings.\<close>

definition js_or :: "string option \<Rightarrow> string option \<Rightarrow> string option" where
  "js_or a b = (if truthy a then a else b)"

text \<open>\<open>v ?? ""\<close> inside a template literal.\<close>

definition orEmpty :: "string option \<Rightarrow> string" where
  "orEmpty v = (case v of None \<Rightarrow> [] | Some s \<Rightarrow> s)"

text \<open>\<open>s.split(c)\<close> for a one-character separator: never empty, \<open>"".split("/")\<close> is \<open>[""]\<close>.\<close>

fun split_on :: "char \<Rightarrow> string \<Rightarrow> string list" where
  "split_on c [] = [[]]"
| "split_on c (x # xs) =
     (if x = c then [] # split_on c xs
      else (case split_on c xs of
              [] \<Rightarrow> [[x]]
            | p # ps \<Rightarrow> (x # p) # ps))"

text \<open>\<open>parts.join(sep)\<close>.\<close>

fun join :: "string \<Rightarrow> string list \<Rightarrow> string" where
  "join sep [] = []"
| "join sep [p] = p"
| "join sep (p # q # ps) = p @ sep @ join sep (q # ps)"

text \<open>\<open>xs.find(p)\<close>: the first element that satisfies \<open>p\<close>, or \<open>undefined\<close>.\<close>

abbreviation js_find :: "('a \<Rightarrow> bool) \<Rightarrow> 'a list \<Rightarrow> 'a option" where
  "js_find p xs \<equiv> List.find p xs"

text \<open>Decimal rendering of \<open>Date.now()\<close> inside a template literal.\<close>

function show_nat :: "nat \<Rightarrow> string" where
  "show_nat n =
     (if n < 10 then [char_of (48 + n)]
      else show_nat (n div 10) @ [char_of (48 + n mod 10)])"
  by pat_completeness auto
termination
  by (relation "measure (\<lambda>n. n)") auto

declare show_nat.simps [simp del]

section \<open>Data model\<close>

text \<open>
  \<open>FileItem\<close> (\<open>@/lib/types/file\<close>): the fields the hooks read. \<open>status\<close> is optional; the
  hooks compare it with the literals below. \<open>indexed_at\<close>, an ISO time stamp written next
  to the status, is read by none of the functions modelled here and is left out.
\<close>

datatype ftype = File | Directory

datatype status = Pending | Indexed | Error | Failed | PendingDelete | Unknown

record FileItem =
  fi_id :: string
  fi_name :: string
  fi_type :: ftype
  fi_size :: nat
  fi_status :: "status option"

text \<open>\<open>useDataManager/types.ts\<close>.\<close>

datatype SyncState = SyncIdle | SyncPending | SyncSynced

record SyncStateData =
  ss_state :: SyncState
  ss_kbId :: "string option"

record DeleteRequest =
  dr_id :: string
  dr_fileId :: string
  dr_fileName :: string
  dr_resourcePath :: string
  dr_kbId :: string
  dr_timestamp :: nat

record DeleteQueueData =
  dq_queue :: "DeleteRequest list"
  dq_processing :: bool

record OptimisticDeleteEntry =
  de_fileId :: string
  de_fileName :: string
  de_kbId :: string
  de_timestamp :: nat
  de_locked :: bool

text \<open>\<open>useOptimisticFolderRegistry.ts\<close>.\<close>

record OptimisticFolderEntry =
  fe_kbId :: string
  fe_folderId :: string
  fe_folderPath :: string
  fe_createdAt :: nat
  fe_rootFolderIds :: "string list"

text \<open>\<open>KnowledgeBase\<close> (\<open>@/lib/types/knowledgeBase\<close>), as \<open>kbCreation.ts\<close> builds it.\<close>

record KnowledgeBase =
  kb_id :: string
  kb_name :: string
  kb_created_at :: string
  kb_is_empty :: bool

text \<open>One folder of the creation context and of \<open>indexedFolders\<close>.\<close>

record FolderFiles =
  ff_folderId :: string
  ff_folderPath :: string
  ff_fileIds :: "string list"

text \<open>
  \<open>CacheStorageData\<close>, the snapshot \<open>persistCacheToStorage\<close> builds. The time stamp and the
  constant version string are kept; the registries are stored by their entries.
\<close>

record CacheStorageData =
  cs_kbId :: string
  cs_timestamp :: nat
  cs_rootResources :: "FileItem list option"
  cs_folderStatuses :: "string \<rightharpoonup> FileItem list"
  cs_optimisticRegistry :: "string \<rightharpoonup> OptimisticDeleteEntry"
  cs_optimisticFolderRegistry :: "(string \<times> OptimisticFolderEntry) list"
  cs_version :: string

text \<open>
  The state the hooks share. The first block is the React Query cache, one field per
  query key: \<open>["sync-state"]\<close>, \<open>["delete-queue"]\<close>, \<open>["optimistic-delete-registry"]\<close>,
  \<open>["optimistic-folder-registry"]\<close>, \<open>["kb-resources", kbId]\<close>,
  \<open>["kb-file-status", kbId, folderPath]\<close> and \<open>["drive-files", folderId]\<close>. A cached listing
  \<open>{ data: FileItem[] }\<close> is its \<open>data\<close>; a key with no data is absent from the map.
  The folder registry's \<open>entries\<close> object is an association list in insertion order, the
  order \<open>Object.values\<close> enumerates (its keys contain a \<open>-\<close>, so none is an array index).
  \<open>currentKB\<close> and \<open>indexedFolders\<close> are the React state of \<open>useKBState\<close>, and
  \<open>cacheStorage\<close> is the snapshot in local storage. The \<open>lastUpdated\<close> stamps of the
  cached objects are read by no function modelled here and are left out.
\<close>

record store =
  syncStateData :: SyncStateData
  queueData :: DeleteQueueData
  registryData :: "string \<rightharpoonup> OptimisticDeleteEntry"
  folderRegistryData :: "(string \<times> OptimisticFolderEntry) list"
  kbResources :: "string \<rightharpoonup> FileItem list"
  kbFileStatus :: "string \<times> string \<rightharpoonup> FileItem list"
  driveFiles :: "string \<rightharpoonup> FileItem list"
  currentKB :: "KnowledgeBase option"
  indexedFolders :: "FolderFiles list"
  cacheStorage :: "CacheStorageData option"

text \<open>The cache as the hooks' \<open>initialData\<close> set it up, with nothing in local storage.\<close>

definition initialStore :: store where
  "initialStore =
     \<lparr> syncStateData = \<lparr> ss_state = SyncIdle, ss_kbId = None \<rparr>,
       queueData = \<lparr> dq_queue = [], dq_processing = False \<rparr>,
       registryData = Map.empty,
       folderRegistryData = [],
       kbResources = Map.empty,
       kbFileStatus = Map.empty,
       driveFiles = Map.empty,
       currentKB = None,
       indexedFolders = [],
       cacheStorage = None \<rparr>"

section \<open>Sync state (\<open>useSyncState\<close>, \<open>useDataManager\<close>)\<close>

text \<open>
  \<open>updateSyncState(newState, kbId = null)\<close> stores \<open>kbId || currentData.kbId\<close>: a falsy
  argument keeps the id that is stored.
\<close>

definition updateSyncState :: "SyncState \<Rightarrow> string option \<Rightarrow> store \<Rightarrow> store" where
  "updateSyncState newState kbId st =
     st\<lparr> syncStateData :=
           \<lparr> ss_state = newState,
             ss_kbId = js_or kbId (ss_kbId (syncStateData st)) \<rparr> \<rparr>"

definition setSyncPending :: "string \<Rightarrow> store \<Rightarrow> store" where
  "setSyncPending kbId = updateSyncState SyncPending (Some kbId)"

definition setSyncCompleted :: "string \<Rightarrow> store \<Rightarrow> store" where
  "setSyncCompleted kbId = updateSyncState SyncSynced (Some kbId)"

definition resetSyncState :: "store \<Rightarrow> store" where
  "resetSyncState = updateSyncState SyncIdle None"

text \<open>A sequence of calls \<open>updateSyncState(s, k)\<close>, applied in order.\<close>

fun updateSyncStates :: "(SyncState \<times> string option) list \<Rightarrow> store \<Rightarrow> store" where
  "updateSyncStates [] st = st"
| "updateSyncStates ((s, k) # calls) st = updateSyncStates calls (updateSyncState s k st)"

section \<open>Optimistic folder registry (\<open>useOptimisticFolderRegistry\<close>)\<close>

text \<open>
  \<open>getFolderPathFromName\<close>: a last path segment that contains a dot is taken for a file name
  and dropped. \<open>split\<close> never returns an empty array, so \<open>pathParts[pathParts.length - 1]\<close>
  is always defined.
\<close>

definition getFolderPathFromName :: "string \<Rightarrow> string" where
  "getFolderPathFromName name =
     (let pathParts = split_on CHR ''/'' name;
          pathParts' = (if CHR ''.'' \<in> set (last pathParts) then butlast pathParts
                        else pathParts)
      in ''/'' @ join ''/'' pathParts')"

text \<open>
  \<open>markFoldersAsOptimisticallyIndexed(kbId, selectedFolderIds, folderNameMap)\<close>. Assigning
  \<open>newEntries[entryKey]\<close> replaces the value of a key the object has, at its place, and
  appends a new key: \<^const>\<open>AList.update\<close>. \<open>now\<close> is the value of \<open>Date.now()\<close>.
\<close>

definition markFolder ::
  "string \<Rightarrow> string list \<Rightarrow> (string \<rightharpoonup> string) \<Rightarrow> nat \<Rightarrow> string
     \<Rightarrow> (string \<times> OptimisticFolderEntry) list \<Rightarrow> (string \<times> OptimisticFolderEntry) list" where
  "markFolder kbId selectedFolderIds folderNameMap now folderId newEntries =
     (if truthy (folderNameMap folderId)
      then AList.update (kbId @ ''-'' @ folderId)
             \<lparr> fe_kbId = kbId,
               fe_folderId = folderId,
               fe_folderPath = getFolderPathFromName (orEmpty (folderNameMap folderId)),
               fe_createdAt = now,
               fe_rootFolderIds = selectedFolderIds \<rparr>
             newEntries
      else newEntries)"

definition markFoldersAsOptimisticallyIndexed ::
  "string \<Rightarrow> string list \<Rightarrow> (string \<rightharpoonup> string) \<Rightarrow> nat \<Rightarrow> store \<Rightarrow> store" where
  "markFoldersAsOptimisticallyIndexed kbId selectedFolderIds folderNameMap now st =
     st\<lparr> folderRegistryData :=
           fold (markFolder kbId selectedFolderIds folderNameMap now) selectedFolderIds
             (folderRegistryData st) \<rparr>"

text \<open>The test both lookups apply to one registered path.\<close>

definition normalizeTarget :: "string \<Rightarrow> string" where
  "normalizeTarget targetFolderPath =
     (if prefix ''/'' targetFolderPath then targetFolderPath else ''/'' @ targetFolderPath)"

definition pathMatches :: "string \<Rightarrow> string \<Rightarrow> bool" where
  "pathMatches normalizedTarget registeredPath =
     (prefix (registeredPath @ ''/'') normalizedTarget \<or> normalizedTarget = registeredPath)"

text \<open>The loop of \<open>isDescendantOfOptimisticFolder\<close> over \<open>kbEntries\<close>.\<close>

fun descendantLoop :: "string \<Rightarrow> OptimisticFolderEntry list \<Rightarrow> bool" where
  "descendantLoop normalizedTarget [] = False"
| "descendantLoop normalizedTarget (entry # kbEntries) =
     (if pathMatches normalizedTarget (fe_folderPath entry) then True
      else descendantLoop normalizedTarget kbEntries)"

definition isDescendantOfOptimisticFolder ::
  "(string \<times> OptimisticFolderEntry) list \<Rightarrow> string \<Rightarrow> string \<Rightarrow> bool" where
  "isDescendantOfOptimisticFolder entries kbId targetFolderPath =
     (if kbId = [] \<or> targetFolderPath = [] then False
      else descendantLoop (normalizeTarget targetFolderPath)
             (filter (\<lambda>entry. fe_kbId entry = kbId) (map snd entries)))"

text \<open>
  The loop of \<open>getOptimisticAncestorFolder\<close>, with its two variables \<open>bestMatch\<close> and
  \<open>longestMatch\<close>.
\<close>

fun ancestorLoop ::
  "string \<Rightarrow> OptimisticFolderEntry list \<Rightarrow> OptimisticFolderEntry option \<Rightarrow> nat
     \<Rightarrow> OptimisticFolderEntry option" where
  "ancestorLoop normalizedTarget [] bestMatch longestMatch = bestMatch"
| "ancestorLoop normalizedTarget (entry # kbEntries) bestMatch longestMatch =
     (if pathMatches normalizedTarget (fe_folderPath entry)
         \<and> length (fe_folderPath entry) > longestMatch
      then ancestorLoop normalizedTarget kbEntries (Some entry) (length (fe_folderPath entry))
      else ancestorLoop normalizedTarget kbEntries bestMatch longestMatch)"

definition getOptimisticAncestorFolder ::
  "(string \<times> OptimisticFolderEntry) list \<Rightarrow> string \<Rightarrow> string
     \<Rightarrow> OptimisticFolderEntry option" where
  "getOptimisticAncestorFolder entries kbId targetFolderPath =
     (if kbId = [] \<or> targetFolderPath = [] then None
      else ancestorLoop (normalizeTarget targetFolderPath)
             (filter (\<lambda>entry. fe_kbId entry = kbId) (map snd entries)) None 0)"

text \<open>\<open>clearOptimisticFoldersForKB\<close> deletes every key whose entry belongs to the KB.\<close>

definition clearOptimisticFoldersForKB :: "string \<Rightarrow> store \<Rightarrow> store" where
  "clearOptimisticFoldersForKB kbId st =
     st\<lparr> folderRegistryData :=
           filter (\<lambda>(entryKey, entry). fe_kbId entry \<noteq> kbId) (folderRegistryData st) \<rparr>"

section \<open>Status resolution (\<open>useOptimisticRegistry\<close>)\<close>

text \<open>
  The value \<open>resolveFileStatus\<close> returns: a status of the record, \<open>"-"\<close> for a file marked as
  deleted, \<open>undefined\<close> for a record that carries no status, and \<open>null\<close> for a file that no
  source knows.
\<close>

datatype display = Shown status | Dash | Undefined | Null

text \<open>\<open>resource.status === "pending" ? "indexed" : resource.status\<close>.\<close>

definition displayStatus :: "status option \<Rightarrow> display" where
  "displayStatus s =
     (case s of None \<Rightarrow> Undefined
      | Some v \<Rightarrow> (if v = Pending then Shown Indexed else Shown v))"

definition cacheKey :: "string \<Rightarrow> string option \<Rightarrow> string option \<Rightarrow> string" where
  "cacheKey fileId kbId folderPath = fileId @ ''|'' @ orEmpty kbId @ ''|'' @ orEmpty folderPath"

text \<open>
  \<open>listing?.data?.find((r) => r.id === fileId)\<close> on the value \<open>getQueryData\<close> returned:
  nothing when the key holds no listing, else the first record with this id.
\<close>

definition findResource :: "FileItem list option \<Rightarrow> string \<Rightarrow> FileItem option" where
  "findResource listing fileId =
     (case listing of None \<Rightarrow> None | Some data \<Rightarrow> js_find (\<lambda>r. fi_id r = fileId) data)"

text \<open>
  \<open>resolveFileStatus(fileId, kbId, folderPath)\<close>. The memo \<open>statusCacheRef.current\<close> is passed
  in and returned; every branch stores its result under the lookup key before it returns.
  The registry entries and the cached listings are read from the store. The hook empties
  the memo in an effect that runs when the delete registry or the optimistic update
  counter was written; that is a call with \<^const>\<open>Map.empty\<close> here.
\<close>

definition resolveFileStatus ::
  "store \<Rightarrow> (string \<rightharpoonup> display) \<Rightarrow> string \<Rightarrow> string option \<Rightarrow> string option
     \<Rightarrow> display \<times> (string \<rightharpoonup> display)" where
  "resolveFileStatus st statusCache fileId kbId folderPath =
     (let key = cacheKey fileId kbId folderPath in
      case statusCache key of
        Some cached \<Rightarrow> (cached, statusCache)
      | None \<Rightarrow>
          if registryData st fileId \<noteq> None then (Dash, statusCache(key \<mapsto> Dash))
          else
            case (if truthy kbId then findResource (kbResources st (orEmpty kbId)) fileId
                  else None) of
              Some resource \<Rightarrow>
                (displayStatus (fi_status resource),
                 statusCache(key \<mapsto> displayStatus (fi_status resource)))
            | None \<Rightarrow>
                case (if truthy kbId \<and> truthy folderPath
                      then findResource
                             (kbFileStatus st (orEmpty kbId, orEmpty folderPath)) fileId
                      else None) of
                  Some folderFile \<Rightarrow>
                    (displayStatus (fi_status folderFile),
                     statusCache(key \<mapsto> displayStatus (fi_status folderFile)))
                | None \<Rightarrow>
                    if truthy kbId \<and> truthy folderPath
                       \<and> isDescendantOfOptimisticFolder (folderRegistryData st)
                            (orEmpty kbId) (orEmpty folderPath)
                    then (Shown Indexed, statusCache(key \<mapsto> Shown Indexed))
                    else (Null, statusCache(key \<mapsto> Null)))"

section \<open>Persistence (\<open>useCachePersistence\<close>)\<close>

text \<open>
  Modelled from the spec: \<open>saveCacheToStorage\<close> and \<open>getCacheFromStorage\<close> of
  \<open>@/lib/utils/localStorage\<close> are not among the sources. The specification gives the
  snapshot store as \<open>save(kbId, snapshot)\<close> and \<open>load() -> snapshot|absent\<close>: the store
  holds the last snapshot saved and hands it back as it was saved.
\<close>

definition saveCacheToStorage :: "CacheStorageData \<Rightarrow> store \<Rightarrow> store" where
  "saveCacheToStorage cacheData st = st\<lparr> cacheStorage := Some cacheData \<rparr>"


text \<open>
  \<open>persistCacheToStorage(kbId)\<close>: the root listing of the KB (\<open>null\<close> when there is none),
  every \<open>["kb-file-status", kbId, folderPath]\<close> query that has data, keyed by its folder
  path, and the entries of both registries. \<open>now\<close> is \<open>Date.now()\<close>.
\<close>

definition persistCacheToStorage :: "string \<Rightarrow> nat \<Rightarrow> store \<Rightarrow> store" where
  "persistCacheToStorage kbId now st =
     saveCacheToStorage
       \<lparr> cs_kbId = kbId,
         cs_timestamp = now,
         cs_rootResources = kbResources st kbId,
         cs_folderStatuses = (\<lambda>folderPath. kbFileStatus st (kbId, folderPath)),
         cs_optimisticRegistry = registryData st,
         cs_optimisticFolderRegistry = folderRegistryData st,
         cs_version = ''1.0'' \<rparr>
       st"



section \<open>Cache operations (\<open>useCacheOperations\<close>)\<close>

text \<open>
  \<open>updateKBResourcesCache\<close> and \<open>updateFolderStatusCache\<close> set the listing the updater
  returns and persist the caches of that KB. The first also asks for an increment of the
  optimistic update counter, which is scheduled for a later animation frame and only
  serves to render again and to empty the memo of \<^const>\<open>resolveFileStatus\<close>; the counter
  is not part of the model.
\<close>

definition updateKBResourcesCache ::
  "string \<Rightarrow> (FileItem list option \<Rightarrow> FileItem list) \<Rightarrow> nat \<Rightarrow> store \<Rightarrow> store" where
  "updateKBResourcesCache kbId updater now st =
     persistCacheToStorage kbId now
       (st\<lparr> kbResources := (kbResources st)(kbId \<mapsto> updater (kbResources st kbId)) \<rparr>)"

definition updateFolderStatusCache ::
  "string \<Rightarrow> string \<Rightarrow> (FileItem list option \<Rightarrow> FileItem list) \<Rightarrow> nat \<Rightarrow> store \<Rightarrow> store" where
  "updateFolderStatusCache kbId folderPath updater now st =
     persistCacheToStorage kbId now
       (st\<lparr> kbFileStatus :=
             (kbFileStatus st)((kbId, folderPath) \<mapsto> updater (kbFileStatus st (kbId, folderPath))) \<rparr>)"

section \<open>Optimistic delete registry and delete queue (\<open>useDataManager\<close>)\<close>


text \<open>
  The request \<open>queueDeleteRequest\<close> builds: its id is made of the file id and the clock.
\<close>

definition newDeleteRequest :: "string \<Rightarrow> string \<Rightarrow> string \<Rightarrow> nat \<Rightarrow> DeleteRequest" where
  "newDeleteRequest fileId fileName kbId now =
     \<lparr> dr_id = ''delete-'' @ fileId @ ''-'' @ show_nat now,
       dr_fileId = fileId,
       dr_fileName = fileName,
       dr_resourcePath = ''/'' @ fileName,
       dr_kbId = kbId,
       dr_timestamp = now \<rparr>"

text \<open>\<open>queueDeleteRequest\<close> appends the request at the tail of the queue.\<close>

definition queueDeleteRequest :: "string \<Rightarrow> string \<Rightarrow> string \<Rightarrow> nat \<Rightarrow> store \<Rightarrow> store" where
  "queueDeleteRequest fileId fileName kbId now st =
     st\<lparr> queueData :=
           (queueData st)\<lparr> dq_queue :=
              dq_queue (queueData st) @ [newDeleteRequest fileId fileName kbId now] \<rparr> \<rparr>"

definition removeFromQueue :: "string \<Rightarrow> store \<Rightarrow> store" where
  "removeFromQueue requestId st =
     st\<lparr> queueData :=
           (queueData st)\<lparr> dq_queue :=
              filter (\<lambda>req. dr_id req \<noteq> requestId) (dq_queue (queueData st)) \<rparr> \<rparr>"

definition updateQueueKBId :: "string \<Rightarrow> string \<Rightarrow> store \<Rightarrow> store" where
  "updateQueueKBId oldKbId newKbId st =
     st\<lparr> queueData :=
           (queueData st)\<lparr> dq_queue :=
              map (\<lambda>request. if dr_kbId request = oldKbId
                              then request\<lparr> dr_kbId := newKbId \<rparr>
                              else request)
                (dq_queue (queueData st)) \<rparr> \<rparr>"

definition setQueueProcessing :: "bool \<Rightarrow> store \<Rightarrow> store" where
  "setQueueProcessing processing st =
     st\<lparr> queueData := (queueData st)\<lparr> dq_processing := processing \<rparr> \<rparr>"

section \<open>Draining the delete queue (\<open>useFileDeletion\<close>)\<close>

text \<open>
  \<open>deleteKBResource(kbId, resourcePath)\<close> is a call to the indexing service: the model
  takes its outcome as a parameter, \<open>True\<close> when the promise resolves and \<open>False\<close> when it
  rejects. While \<open>processQueue\<close> awaits a deletion (and the pause after it) other tasks
  run; the ones that matter to the queue are calls of \<open>queueDeleteRequest\<close>, given as
  \<open>arrivals i\<close>, the calls made while the \<open>i\<close>-th deletion of the drain is in flight, each
  with its file id, file name, KB id and clock.
\<close>

type_synonym arrival = "string \<times> string \<times> string \<times> nat"

definition arrivalRequest :: "arrival \<Rightarrow> DeleteRequest" where
  "arrivalRequest a =
     (case a of (fileId, fileName, kbId, now) \<Rightarrow> newDeleteRequest fileId fileName kbId now)"

fun enqueueAll :: "arrival list \<Rightarrow> store \<Rightarrow> store" where
  "enqueueAll [] st = st"
| "enqueueAll ((fileId, fileName, kbId, now) # as) st =
     enqueueAll as (queueDeleteRequest fileId fileName kbId now st)"

text \<open>
  The \<open>for (const request of queue)\<close> loop, over the array the callback closed over. It
  returns the deletion calls it made, in order, each with its outcome, and the store.
  Both the success branch and the \<open>catch\<close> branch remove the request from the queue.
\<close>

fun drainLoop ::
  "(string \<Rightarrow> string \<Rightarrow> bool) \<Rightarrow> (nat \<Rightarrow> arrival list) \<Rightarrow> nat \<Rightarrow> DeleteRequest list
     \<Rightarrow> store \<Rightarrow> (DeleteRequest \<times> bool) list \<times> store" where
  "drainLoop deleteKBResource arrivals i [] st = ([], st)"
| "drainLoop deleteKBResource arrivals i (request # queue) st =
     (let st1 = enqueueAll (arrivals i) st;
          ok = deleteKBResource (dr_kbId request) (dr_resourcePath request);
          st2 = (if ok then removeFromQueue (dr_id request) st1
                 else removeFromQueue (dr_id request) st1);
          (calls, st3) = drainLoop deleteKBResource arrivals (Suc i) queue st2
      in ((request, ok) # calls, st3))"

text \<open>
  \<open>processQueue\<close>: nothing without a current KB id, while a drain is in progress or on an
  empty queue; else the processing flag is set, the queue as it is now is drained, and
  the flag is cleared in the \<open>finally\<close> block. The success toast after the loop is not
  part of the model.
\<close>

definition processQueue ::
  "(string \<Rightarrow> string \<Rightarrow> bool) \<Rightarrow> (nat \<Rightarrow> arrival list) \<Rightarrow> store
     \<Rightarrow> (DeleteRequest \<times> bool) list \<times> store" where
  "processQueue deleteKBResource arrivals st =
     (if \<not> truthy (map_option kb_id (currentKB st))
         \<or> dq_processing (queueData st)
         \<or> dq_queue (queueData st) = []
      then ([], st)
      else (let (calls, st') =
                  drainLoop deleteKBResource arrivals 0 (dq_queue (queueData st))
                    (setQueueProcessing True st)
            in (calls, setQueueProcessing False st')))"

text \<open>
  The effect that starts the drain: when the sync state is \<open>synced\<close>, the queue has items
  and no drain is in progress.
\<close>

definition drainWhenSynced ::
  "(string \<Rightarrow> string \<Rightarrow> bool) \<Rightarrow> (nat \<Rightarrow> arrival list) \<Rightarrow> store
     \<Rightarrow> (DeleteRequest \<times> bool) list \<times> store" where
  "drainWhenSynced deleteKBResource arrivals st =
     (if ss_state (syncStateData st) = SyncSynced
         \<and> dq_queue (queueData st) \<noteq> []
         \<and> \<not> dq_processing (queueData st)
      then processQueue deleteKBResource arrivals st
      else ([], st))"

section \<open>Polling (\<open>useKnowledgeBaseStatus\<close>)\<close>

text \<open>
  The React state of \<open>usePollingState\<close> and \<open>useFolderPolling\<close>: \<open>shouldPoll\<close>,
  \<open>hasShownErrorToast\<close>, \<open>pollingStartTime\<close> (the clock when the hook was mounted) and the
  map \<open>folderPollingStatus\<close>, kept in insertion order.
\<close>

record pollingState =
  shouldPoll :: bool
  hasShownErrorToast :: bool
  pollingStartTime :: nat
  folderPollingStatus :: "(string \<times> bool) list"





text \<open>
  The effects that run when \<open>kbId\<close> changes: polling and the toast flag are reset, and the
  folder polling map is emptied, for a \<open>kbId\<close> that is set.
\<close>

definition kbIdChanged :: "string option \<Rightarrow> pollingState \<Rightarrow> pollingState" where
  "kbIdChanged kbId ps =
     (if truthy kbId
      then ps\<lparr> shouldPoll := True, hasShownErrorToast := False, folderPollingStatus := [] \<rparr>
      else ps)"















section \<open>Folder helpers (\<open>useFolderHelpers\<close>)\<close>

text \<open>\<open>getFolderPathFromFileName\<close>: the last segment is dropped whatever it is.\<close>

definition getFolderPathFromFileName :: "string \<Rightarrow> string" where
  "getFolderPathFromFileName fileName =
     ''/'' @ join ''/'' (butlast (split_on CHR ''/'' fileName))"

text \<open>
  The children \<open>processFiles\<close> selects for a directory: the files of \<open>allFiles\<close> whose name
  starts with the name of the directory and a \<open>/\<close> and has one segment more.
\<close>

definition childFiles :: "FileItem \<Rightarrow> FileItem list \<Rightarrow> FileItem list" where
  "childFiles file allFiles =
     filter (\<lambda>f. prefix (fi_name file @ ''/'') (fi_name f)
                \<and> length (split_on CHR ''/'' (fi_name f))
                    = length (split_on CHR ''/'' (fi_name file)) + 1)
       allFiles"

text \<open>
  The measure of the recursion of \<open>processFiles\<close>: a child has a longer name than its
  directory, and no name of \<open>allFiles\<close> is longer than all of them together.
\<close>

primrec depthBound :: "nat \<Rightarrow> FileItem list \<Rightarrow> nat" where
  "depthBound bound [] = 0"
| "depthBound bound (f # fs) =
     max (Suc (Suc bound - length (fi_name f))) (depthBound bound fs)"

definition totalNameLength :: "FileItem list \<Rightarrow> nat" where
  "totalNameLength allFiles = sum_list (map (\<lambda>f. length (fi_name f)) allFiles)"

lemma depthBound_children:
  assumes "\<forall>c \<in> set cs. n < length (fi_name c) \<and> length (fi_name c) \<le> bound"
  shows "depthBound bound cs < Suc (Suc bound - n)"
  using assms by (induction cs) auto

lemma name_le_totalNameLength:
  "c \<in> set allFiles \<Longrightarrow> length (fi_name c) \<le> totalNameLength allFiles"
  unfolding totalNameLength_def by (induction allFiles) auto

lemma childFiles_longer:
  assumes "c \<in> set (childFiles d allFiles)"
  shows "length (fi_name d) < length (fi_name c)
         \<and> length (fi_name c) \<le> totalNameLength allFiles"
proof -
  from assms have "prefix (fi_name d @ ''/'') (fi_name c)" and m: "c \<in> set allFiles"
    by (simp_all add: childFiles_def)
  then have "length (fi_name d @ ''/'') \<le> length (fi_name c)"
    by (intro prefix_length_le)
  moreover from m have "length (fi_name c) \<le> totalNameLength allFiles"
    by (rule name_le_totalNameLength)
  ultimately show ?thesis by simp
qed

text \<open>
  \<open>getAllDescendantFileIds(parentFiles, allFiles)\<close>: the ids of the files, depth first; a
  directory contributes the ids of its children.
\<close>

function processFiles :: "FileItem list \<Rightarrow> FileItem list \<Rightarrow> string list" where
  "processFiles allFiles [] = []"
| "processFiles allFiles (file # files) =
     (if fi_type file = File then [fi_id file]
      else processFiles allFiles (childFiles file allFiles))
     @ processFiles allFiles files"
  by pat_completeness auto
termination
proof (relation "measures [\<lambda>(allFiles, files). depthBound (totalNameLength allFiles) files,
                           \<lambda>(allFiles, files). length files]")
  show "wf (measures [\<lambda>(allFiles, files). depthBound (totalNameLength allFiles) files,
                      \<lambda>(allFiles, files). length files])"
    by simp
next
  fix allFiles :: "FileItem list" and d :: FileItem and files :: "FileItem list"
  have "depthBound (totalNameLength allFiles) (childFiles d allFiles)
          < Suc (Suc (totalNameLength allFiles) - length (fi_name d))"
    by (rule depthBound_children) (use childFiles_longer in blast)
  then show "((allFiles, childFiles d allFiles), allFiles, d # files)
          \<in> measures [\<lambda>(allFiles, files). depthBound (totalNameLength allFiles) files,
                       \<lambda>(allFiles, files). length files]"
    by (simp add: less_max_iff_disj)
next
  fix allFiles :: "FileItem list" and d :: FileItem and files :: "FileItem list"
  show "((allFiles, files), allFiles, d # files)
          \<in> measures [\<lambda>(allFiles, files). depthBound (totalNameLength allFiles) files,
                       \<lambda>(allFiles, files). length files]"
    by auto
qed

definition getAllDescendantFileIds :: "FileItem list \<Rightarrow> FileItem list \<Rightarrow> string list" where
  "getAllDescendantFileIds parentFiles allFiles = processFiles allFiles parentFiles"

section \<open>KB creation (\<open>useKBCreation\<close>)\<close>

text \<open>
  The context \<open>onMutate\<close> returns. \<open>folderFiles\<close> is the array \<open>cachedFolderFiles\<close> itself, to
  which a background fetch that completes later still pushes.
\<close>

record mutationContext =
  ctx_optimisticKB :: KnowledgeBase
  ctx_resourceIds :: "string list"
  ctx_previousKB :: "KnowledgeBase option"
  ctx_folderFiles :: "FolderFiles list"
  ctx_allFileIds :: "string list"

text \<open>The ids of \<open>resourceIds\<close> that \<open>files\<close> knows with the given type.\<close>

definition selectedOfType :: "ftype \<Rightarrow> string list \<Rightarrow> FileItem list \<Rightarrow> string list" where
  "selectedOfType t resourceIds files =
     filter (\<lambda>id'. case js_find (\<lambda>f. fi_id f = id') files of
                      None \<Rightarrow> False
                    | Some item \<Rightarrow> fi_type item = t)
       resourceIds"

text \<open>
  The record synthesized for a file id, shown as indexed. For the files of a folder the
  type is the literal \<open>file\<close>; for a root file it is the type of the item.
\<close>

definition optimisticResource :: "bool \<Rightarrow> FileItem list \<Rightarrow> string \<Rightarrow> FileItem" where
  "optimisticResource inFolder files fileId =
     (case js_find (\<lambda>f. fi_id f = fileId) files of
        None \<Rightarrow>
          \<lparr> fi_id = fileId, fi_name = [], fi_type = File, fi_size = 0,
            fi_status = Some Indexed \<rparr>
      | Some file \<Rightarrow>
          \<lparr> fi_id = fileId, fi_name = fi_name file,
            fi_type = (if inFolder then File else fi_type file),
            fi_size = fi_size file, fi_status = Some Indexed \<rparr>)"

text \<open>The \<open>folderNameMap\<close> built from the selected folder ids.\<close>

definition folderNameMapOf :: "string list \<Rightarrow> FileItem list \<Rightarrow> (string \<rightharpoonup> string)" where
  "folderNameMapOf selectedFolderIds files =
     (\<lambda>folderId.
        if folderId \<in> set selectedFolderIds
        then map_option fi_name (js_find (\<lambda>f. fi_id f = folderId) files)
        else None)"

text \<open>
  The loop over the selected folders: a folder whose contents are cached and hold a file
  goes to \<open>cachedFolderFiles\<close>; a folder with no cached contents goes to
  \<open>uncachedFolderIds\<close>; a cached folder without any file goes to neither.
\<close>

fun segregateFolders ::
  "store \<Rightarrow> FileItem list \<Rightarrow> string list \<Rightarrow> FolderFiles list \<times> string list" where
  "segregateFolders st files [] = ([], [])"
| "segregateFolders st files (folderId # folderIds) =
     (let (cachedFolderFiles, uncachedFolderIds) = segregateFolders st files folderIds
      in case driveFiles st folderId of
           None \<Rightarrow> (cachedFolderFiles, folderId # uncachedFolderIds)
         | Some [] \<Rightarrow> (cachedFolderFiles, folderId # uncachedFolderIds)
         | Some (first # others) \<Rightarrow>
             (let fileIds = getAllDescendantFileIds (first # others) files
              in if fileIds \<noteq> []
                 then (\<lparr> ff_folderId = folderId,
                         ff_folderPath = getFolderPathFromFileName (fi_name first),
                         ff_fileIds = fileIds \<rparr> # cachedFolderFiles,
                       uncachedFolderIds)
                 else (cachedFolderFiles, uncachedFolderIds)))"

text \<open>The status listing of every cached folder is set under the KB id, in order.\<close>

fun setFolderListings ::
  "string \<Rightarrow> FileItem list \<Rightarrow> nat \<Rightarrow> FolderFiles list \<Rightarrow> store \<Rightarrow> store" where
  "setFolderListings kbId files now [] st = st"
| "setFolderListings kbId files now (folder # folders) st =
     setFolderListings kbId files now folders
       (updateFolderStatusCache kbId (ff_folderPath folder)
          (\<lambda>prev. map (optimisticResource True files) (ff_fileIds folder)) now st)"

text \<open>
  \<open>onMutate\<close>, up to the point where the background fetches are started. \<open>now\<close> is
  \<open>Date.now()\<close>; \<open>localeString\<close> and \<open>isoString\<close> are the two renderings of the date that go
  into the name and the creation time of the temporary KB.
\<close>

definition onMutate ::
  "string list \<Rightarrow> FileItem list \<Rightarrow> nat \<Rightarrow> string \<Rightarrow> string \<Rightarrow> store
     \<Rightarrow> mutationContext \<times> string list \<times> store" where
  "onMutate resourceIds files now localeString isoString st =
     (let optimisticKB =
            \<lparr> kb_id = ''temp-'' @ show_nat now,
              kb_name = ''Knowledge Base '' @ localeString,
              kb_created_at = isoString,
              kb_is_empty = False \<rparr>;
          st1 = setSyncPending (kb_id optimisticKB) (st\<lparr> currentKB := Some optimisticKB \<rparr>);
          selectedFolders = selectedOfType Directory resourceIds files;
          selectedFiles = selectedOfType File resourceIds files;
          (cachedFolderFiles, uncachedFolderIds) = segregateFolders st1 files selectedFolders;
          allCachedFileIds = selectedFiles @ concat (map ff_fileIds cachedFolderFiles);
          st2 = st1\<lparr> indexedFolders := cachedFolderFiles \<rparr>;
          st3 = updateKBResourcesCache (kb_id optimisticKB)
                  (\<lambda>prev. map (optimisticResource False files) selectedFiles) now st2;
          st4 = (if selectedFolders \<noteq> []
                 then markFoldersAsOptimisticallyIndexed (kb_id optimisticKB) selectedFolders
                        (folderNameMapOf selectedFolders files) now st3
                 else st3);
          st5 = setFolderListings (kb_id optimisticKB) files now cachedFolderFiles st4
      in (\<lparr> ctx_optimisticKB = optimisticKB,
            ctx_resourceIds = resourceIds,
            ctx_previousKB = None,
            ctx_folderFiles = cachedFolderFiles,
            ctx_allFileIds = allCachedFileIds \<rparr>,
          uncachedFolderIds,
          st5))"

text \<open>
  The completion of one background fetch of \<open>onMutate\<close>, for the uncached folder
  \<open>folderId\<close> with the contents \<open>folderContents\<close> the listing service returned: the contents
  are cached, and when they hold a file its listing is set under the temporary id and the
  folder is pushed to the \<open>folderFiles\<close> of the context.
\<close>

definition backgroundFetched ::
  "FileItem list \<Rightarrow> nat \<Rightarrow> string \<Rightarrow> FileItem list \<Rightarrow> mutationContext \<times> store
     \<Rightarrow> mutationContext \<times> store" where
  "backgroundFetched files now folderId folderContents cs =
     (case cs of (ctx, st) \<Rightarrow>
        case js_find (\<lambda>f. fi_id f = folderId) files of
          None \<Rightarrow> (ctx, st)
        | Some selectedItem \<Rightarrow>
            (let st1 = st\<lparr> driveFiles := (driveFiles st)(folderId \<mapsto> folderContents) \<rparr>
             in case folderContents of
                  [] \<Rightarrow> (ctx, st1)
                | first # others \<Rightarrow>
                    (let folderPath = getFolderPathFromFileName (fi_name first);
                         fileIds = getAllDescendantFileIds folderContents files
                     in if fileIds \<noteq> []
                        then (ctx\<lparr> ctx_folderFiles :=
                                    ctx_folderFiles ctx @
                                      [\<lparr> ff_folderId = folderId, ff_folderPath = folderPath,
                                         ff_fileIds = fileIds \<rparr>] \<rparr>,
                              updateFolderStatusCache (kb_id (ctx_optimisticKB ctx)) folderPath
                                (\<lambda>prev. map (optimisticResource True files) fileIds) now st1)
                        else (ctx, st1))))"

text \<open>
  The two \<open>removeQueries\<close> calls: the root listing of the KB, and every folder status
  listing whose key has the KB id in second place.
\<close>

definition removeKBQueries :: "string \<Rightarrow> store \<Rightarrow> store" where
  "removeKBQueries kbId st =
     st\<lparr> kbResources := (kbResources st)(kbId := None),
         kbFileStatus := (\<lambda>(k, folderPath). if k = kbId then None
                                             else kbFileStatus st (k, folderPath)) \<rparr>"

text \<open>The folder status listings of the context are copied from one KB id to another.\<close>

fun transferFolderListings :: "string \<Rightarrow> string \<Rightarrow> FolderFiles list \<Rightarrow> store \<Rightarrow> store" where
  "transferFolderListings fromId toId [] st = st"
| "transferFolderListings fromId toId (folder # folders) st =
     transferFolderListings fromId toId folders
       (case kbFileStatus st (fromId, ff_folderPath folder) of
          None \<Rightarrow> st
        | Some optimisticFolderData \<Rightarrow>
            st\<lparr> kbFileStatus :=
                  (kbFileStatus st)((toId, ff_folderPath folder) \<mapsto> optimisticFolderData) \<rparr>)"

text \<open>
  \<open>onSuccess({ kb, resourceIds }, variables, context)\<close>. \<open>resourceIds\<close> are the ids the
  mutation returned, the selection after \<open>deduplicateResourceIds\<close> (which is not among the
  sources: any list is allowed here); \<open>files\<close> are \<open>variables.files\<close>. The KB is also saved
  to local storage by \<open>saveKBToStorage\<close>, a store of its own that is not part of the model.
\<close>

definition onSuccess ::
  "KnowledgeBase \<Rightarrow> string list \<Rightarrow> FileItem list \<Rightarrow> mutationContext option \<Rightarrow> nat \<Rightarrow> store
     \<Rightarrow> store" where
  "onSuccess kb resourceIds files context now st =
     (let st1 = setSyncCompleted (kb_id kb) st;
          st2 = (case context of
                   None \<Rightarrow> st1
                 | Some ctx \<Rightarrow> updateQueueKBId (kb_id (ctx_optimisticKB ctx)) (kb_id kb) st1);
          st3 = st2\<lparr> currentKB := Some kb \<rparr>
      in case context of
           None \<Rightarrow> st3
         | Some ctx \<Rightarrow>
             (let tempId = kb_id (ctx_optimisticKB ctx);
                  st4 = (case kbResources st3 tempId of
                           None \<Rightarrow> st3
                         | Some optimisticRootData \<Rightarrow>
                             st3\<lparr> kbResources :=
                                   (kbResources st3)(kb_id kb \<mapsto> optimisticRootData) \<rparr>);
                  selectedFolderIds = selectedOfType Directory resourceIds files;
                  st5 = (if selectedFolderIds \<noteq> []
                         then markFoldersAsOptimisticallyIndexed (kb_id kb) selectedFolderIds
                                (folderNameMapOf selectedFolderIds files) now
                                (clearOptimisticFoldersForKB tempId st4)
                         else st4);
                  st6 = transferFolderListings tempId (kb_id kb) (ctx_folderFiles ctx) st5;
                  st7 = removeKBQueries tempId st6
              in st7\<lparr> indexedFolders := ctx_folderFiles ctx \<rparr>))"

text \<open>
  \<open>onError(error, variables, context)\<close>. The sync state is reset by
  \<open>setSyncCompleted("")\<close>, which the source comments with \<open>Reset to idle\<close>.
\<close>

definition onError :: "mutationContext option \<Rightarrow> store \<Rightarrow> store" where
  "onError context st =
     (case context of
        None \<Rightarrow> st
      | Some ctx \<Rightarrow>
          (let st1 = st\<lparr> currentKB := ctx_previousKB ctx, indexedFolders := [] \<rparr>;
               st2 = setSyncCompleted [] st1
           in removeKBQueries (kb_id (ctx_optimisticKB ctx)) st2))"

text \<open>
  The write of \<open>toggleFolder\<close> (\<open>useFileTree/folderOperations.ts\<close>) when a folder is expanded
  whose path resolves as indexed for the current KB: the fetched contents are cached,
  and the files among them are set, as indexed, as the status listing of the folder.
\<close>

definition getFolderPath :: "FileItem list \<Rightarrow> string" where
  "getFolderPath files =
     (case files of [] \<Rightarrow> [] | firstFile # others \<Rightarrow> getFolderPathFromFileName (fi_name firstFile))"

definition expandFolder ::
  "string option \<Rightarrow> string \<Rightarrow> FileItem list \<Rightarrow> (string \<rightharpoonup> display) \<Rightarrow> store \<Rightarrow> store" where
  "expandFolder kbId folderId fetchedFiles statusCache st =
     (let st1 = st\<lparr> driveFiles := (driveFiles st)(folderId \<mapsto> fetchedFiles) \<rparr>
      in if truthy kbId \<and> fetchedFiles \<noteq> []
         then (let folderPath = getFolderPath fetchedFiles
               in if fst (resolveFileStatus st1 statusCache [] kbId (Some folderPath))
                       = Shown Indexed
                  then st1\<lparr> kbFileStatus :=
                             (kbFileStatus st1)((orEmpty kbId, folderPath) \<mapsto>
                                map (\<lambda>file. file\<lparr> fi_status := Some Indexed \<rparr>)
                                  (filter (\<lambda>file. fi_type file = File) fetchedFiles)) \<rparr>
                  else st1)
         else st1)"

section \<open>Wording of the claims, and example states\<close>

text \<open>
  The match of a registered folder path against a normalized target in the words of the
  specification: the path equals the target, or it is a strict prefix of the target and
  the target continues with a \<open>/\<close>. It is compared with \<^const>\<open>pathMatches\<close>, the test of
  the source.
\<close>

definition matchesAtBoundary :: "string \<Rightarrow> string \<Rightarrow> bool" where
  "matchesAtBoundary normalizedPath folderPath =
     (folderPath = normalizedPath
      \<or> (strict_prefix folderPath normalizedPath
          \<and> normalizedPath ! length folderPath = CHR ''/''))"

text \<open>The registry after the folders \<open>A\<close> and \<open>A/B\<close> were marked for the KB \<open>kb\<close>.\<close>

definition exampleRegistry :: "(string \<times> OptimisticFolderEntry) list" where
  "exampleRegistry =
     folderRegistryData
       (markFoldersAsOptimisticallyIndexed ''kb'' [''a'', ''b'']
          [''a'' \<mapsto> ''A'', ''b'' \<mapsto> ''A/B''] 7 initialStore)"

text \<open>
  The registry after a top-level folder named \<open>v1.0\<close> was marked: the dot makes
  \<^const>\<open>getFolderPathFromName\<close> drop the only segment, and the registered path is \<open>/\<close>.
\<close>

definition dottedRegistry :: "(string \<times> OptimisticFolderEntry) list" where
  "dottedRegistry =
     folderRegistryData
       (markFoldersAsOptimisticallyIndexed ''kb'' [''f''] [''f'' \<mapsto> ''v1.0''] 7 initialStore)"


text \<open>A file record with the given id, name and status.\<close>

definition exampleFile :: "string \<Rightarrow> string \<Rightarrow> status option \<Rightarrow> FileItem" where
  "exampleFile fileId name s =
     \<lparr> fi_id = fileId, fi_name = name, fi_type = File, fi_size = 1, fi_status = s \<rparr>"


text \<open>A KB as the backend returned it, with a real id.\<close>

definition realKB :: KnowledgeBase where
  "realKB = \<lparr> kb_id = ''kb-1'', kb_name = ''Knowledge Base'', kb_created_at = ''2025'',
               kb_is_empty = False \<rparr>"

text \<open>
  A store with a current KB and two queued requests, for \<open>one.txt\<close> and then \<open>two.txt\<close>; a
  deletion service that rejects the request for \<open>two.txt\<close>; and a third request that is
  queued while the second deletion is in flight.
\<close>

definition queuedStore :: store where
  "queuedStore =
     queueDeleteRequest ''f2'' ''two.txt'' ''kb-1'' 6
       (queueDeleteRequest ''f1'' ''one.txt'' ''kb-1'' 5
          (initialStore\<lparr> currentKB := Some realKB \<rparr>))"

definition failSecond :: "string \<Rightarrow> string \<Rightarrow> bool" where
  "failSecond kbId resourcePath = (resourcePath \<noteq> ''/two.txt'')"

definition lateArrival :: "nat \<Rightarrow> arrival list" where
  "lateArrival i = (if i = 1 then [(''f3'', ''three.txt'', ''kb-1'', 7)] else [])"





text \<open>
  The files the picker knows: the folder \<open>A\<close> with \<open>one.txt\<close> and the folder \<open>A/B\<close>, which
  holds \<open>two.txt\<close>, and \<open>three.txt\<close> at the root.
\<close>

definition driveListing :: "FileItem list" where
  "driveListing =
     [\<lparr> fi_id = ''a'', fi_name = ''A'', fi_type = Directory, fi_size = 0, fi_status = None \<rparr>,
      exampleFile ''f1'' ''A/one.txt'' None,
      \<lparr> fi_id = ''b'', fi_name = ''A/B'', fi_type = Directory, fi_size = 0, fi_status = None \<rparr>,
      exampleFile ''f2'' ''A/B/two.txt'' None,
      exampleFile ''f3'' ''three.txt'' None]"

text \<open>The store of a session in which the folder \<open>A\<close> was opened, so its contents are cached.\<close>

definition browsedStore :: store where
  "browsedStore =
     initialStore\<lparr> driveFiles :=
       [''a'' \<mapsto> [exampleFile ''f1'' ''A/one.txt'' None,
                  \<lparr> fi_id = ''b'', fi_name = ''A/B'', fi_type = Directory, fi_size = 0,
                    fi_status = None \<rparr>]] \<rparr>"

text \<open>
  The creation of a KB from the folder \<open>A\<close> and the file \<open>three.txt\<close>, started at time 5:
  the context, the folders left to fetch, and the store of the pending phase.
\<close>

definition pendingCreation :: "mutationContext \<times> string list \<times> store" where
  "pendingCreation = onMutate [''a'', ''f3''] driveListing 5 ''now'' ''now'' browsedStore"

text \<open>While the creation is pending, \<open>three.txt\<close> is queued for deletion.\<close>

definition pendingWithDelete :: store where
  "pendingWithDelete =
     queueDeleteRequest ''f3'' ''three.txt'' ''temp-5'' 6 (snd (snd pendingCreation))"

text \<open>The backend confirms the creation with the KB \<open>kb-1\<close>.\<close>

definition committed :: store where
  "committed =
     onSuccess realKB [''a'', ''f3''] driveListing (Some (fst pendingCreation)) 9
       pendingWithDelete"

text \<open>
  While the creation is pending, the folder \<open>A/B\<close> is expanded: its path resolves as
  indexed, so its file is set as the status listing of \<open>/A/B\<close> under the temporary id.
\<close>

definition expandedWhilePending :: store where
  "expandedWhilePending =
     expandFolder (Some ''temp-5'') ''b'' [exampleFile ''f2'' ''A/B/two.txt'' None] Map.empty
       (snd (snd pendingCreation))"



section \<open>Facts about the example store and the reads of the resolver\<close>



section \<open>Properties of the sync state\<close>

lemma updateSyncStates_append:
  "updateSyncStates (xs @ ys) st = updateSyncStates ys (updateSyncStates xs st)"
  by (induction xs arbitrary: st) auto

lemma updateSyncStates_kbId:
  "ss_kbId (syncStateData (updateSyncStates calls st)) =
     (if filter truthy (map snd calls) = [] then ss_kbId (syncStateData st)
      else last (filter truthy (map snd calls)))"
proof (induction calls arbitrary: st)
  case Nil
  show ?case by simp
next
  case (Cons c calls)
  obtain s k where c: "c = (s, k)" by (cases c)
  show ?case
    by (simp add: c Cons.IH updateSyncState_def js_or_def)
qed

lemma updateSyncStates_state:
  "ss_state (syncStateData (updateSyncStates calls st)) =
     (if calls = [] then ss_state (syncStateData st) else fst (last calls))"
proof (induction calls arbitrary: st)
  case Nil
  show ?case by simp
next
  case (Cons c calls)
  obtain s k where c: "c = (s, k)" by (cases c)
  show ?case
    by (simp add: c Cons.IH updateSyncState_def)
qed

text \<open>
  C10. \<open>updateSyncState\<close> keeps the stored \<open>kbId\<close> whenever its \<open>kbId\<close> argument is \<open>null\<close> or
  empty: after any sequence of calls the stored \<open>kbId\<close> is the last non-empty one that was
  passed (the one stored before the sequence when none was), while the state field is the
  one of the last call. In particular \<open>resetSyncState()\<close>, which is
  \<open>updateSyncState("idle", null)\<close>, and \<open>setSyncCompleted("")\<close> set the state field and leave
  the remembered \<open>kbId\<close> as it is; they never put it back to \<open>null\<close>.
\<close>

theorem updateSyncState_remembers_kbId:
  "ss_kbId (syncStateData (updateSyncStates calls st)) =
     (if filter truthy (map snd calls) = [] then ss_kbId (syncStateData st)
      else last (filter truthy (map snd calls)))
   \<and> ss_state (syncStateData (updateSyncStates calls st)) =
     (if calls = [] then ss_state (syncStateData st) else fst (last calls))
   \<and> ss_kbId (syncStateData (updateSyncState s None st)) = ss_kbId (syncStateData st)
   \<and> ss_kbId (syncStateData (updateSyncState s (Some []) st)) = ss_kbId (syncStateData st)
   \<and> syncStateData (resetSyncState st)
       = \<lparr> ss_state = SyncIdle, ss_kbId = ss_kbId (syncStateData st) \<rparr>
   \<and> syncStateData (setSyncCompleted [] st)
       = \<lparr> ss_state = SyncSynced, ss_kbId = ss_kbId (syncStateData st) \<rparr>
   \<and> syncStateData (resetSyncState (setSyncPending (c # cs) st))
       = \<lparr> ss_state = SyncIdle, ss_kbId = Some (c # cs) \<rparr>"
  unfolding updateSyncStates_kbId updateSyncStates_state
  by (simp add: updateSyncState_def resetSyncState_def setSyncCompleted_def
      setSyncPending_def js_or_def truthy_def)

section \<open>Ancestor and descendant lookup in the folder registry\<close>

lemma pathMatches_boundary:
  "pathMatches t p \<longleftrightarrow> (p = t \<or> (strict_prefix p t \<and> t ! length p = CHR ''/''))"
proof -
  have "prefix (p @ ''/'') t \<longleftrightarrow> (strict_prefix p t \<and> t ! length p = CHR ''/'')"
  proof
    assume "prefix (p @ ''/'') t"
    then obtain zs where "t = p @ ''/'' @ zs" by (auto simp: prefix_def)
    then show "strict_prefix p t \<and> t ! length p = CHR ''/''"
      by (auto simp: strict_prefix_def nth_append)
  next
    assume a: "strict_prefix p t \<and> t ! length p = CHR ''/''"
    then obtain z zs where t: "t = p @ z # zs" by (auto elim: strict_prefixE')
    with a have "z = CHR ''/''" by (simp add: nth_append)
    with t show "prefix (p @ ''/'') t" by (simp add: prefix_def)
  qed
  then show ?thesis by (auto simp: pathMatches_def)
qed

lemma descendantLoop_iff:
  "descendantLoop t es \<longleftrightarrow> (\<exists>e \<in> set es. pathMatches t (fe_folderPath e))"
  by (induction es) auto

text \<open>
  The invariant of the loop of \<open>getOptimisticAncestorFolder\<close>: \<open>bestMatch\<close> is unset, or
  \<open>longestMatch\<close> is the length of its path.
\<close>

lemma ancestorLoop_char:
  "best = None \<or> (\<exists>b. best = Some b \<and> length (fe_folderPath b) = n) \<Longrightarrow>
   (case ancestorLoop t es best n of
      None \<Rightarrow> best = None \<and> (\<forall>e \<in> set es. pathMatches t (fe_folderPath e) \<longrightarrow> length (fe_folderPath e) \<le> n)
    | Some r \<Rightarrow> (best = Some r \<or> (r \<in> set es \<and> pathMatches t (fe_folderPath r)
            \<and> n < length (fe_folderPath r)))
        \<and> n \<le> length (fe_folderPath r)
        \<and> (\<forall>e \<in> set es. pathMatches t (fe_folderPath e) \<longrightarrow> length (fe_folderPath e) \<le> length (fe_folderPath r)))"
proof (induction es arbitrary: best n)
  case Nil
  then show ?case by (auto split: option.splits)
next
  case (Cons entry es)
  show ?case
  proof (cases "pathMatches t (fe_folderPath entry) \<and> length (fe_folderPath entry) > n")
    case True
    have "Some entry = None \<or> (\<exists>b. Some entry = Some b \<and> length (fe_folderPath b) = length (fe_folderPath entry))"
      by simp
    from Cons.IH[OF this] True show ?thesis
      by (auto split: option.splits)
  next
    case False
    then have eq: "ancestorLoop t (entry # es) best n = ancestorLoop t es best n"
      by auto
    show ?thesis
    proof (cases "ancestorLoop t es best n")
      case None
      with Cons.IH[OF Cons.prems] False eq show ?thesis by auto
    next
      case (Some r)
      with Cons.IH[OF Cons.prems] False eq show ?thesis by auto
    qed
  qed
qed


lemma exampleRegistry_eq: "exampleRegistry =
  [(''kb-a'', \<lparr>fe_kbId = ''kb'', fe_folderId = ''a'', fe_folderPath = ''/A'',
      fe_createdAt = 7, fe_rootFolderIds = [''a'', ''b'']\<rparr>),
   (''kb-b'', \<lparr>fe_kbId = ''kb'', fe_folderId = ''b'', fe_folderPath = ''/A/B'',
      fe_createdAt = 7, fe_rootFolderIds = [''a'', ''b'']\<rparr>)]"
  by (simp add: exampleRegistry_def markFoldersAsOptimisticallyIndexed_def markFolder_def
      initialStore_def getFolderPathFromName_def truthy_def orEmpty_def)

text \<open>
  C6 (as amended). For a non-empty \<open>kbId\<close> and a non-empty path,
  \<open>isDescendantOfOptimisticFolder(kbId, path)\<close> is true exactly when some registered entry of
  \<open>kbId\<close> has a \<open>folderPath\<close> that equals the leading-slash-normalized path or is a strict
  prefix of it ending at a \<open>/\<close> boundary; \<open>getOptimisticAncestorFolder(kbId, path)\<close> returns
  one of these matching entries whose \<open>folderPath\<close> is longest, and returns none exactly
  when no matching entry has a non-empty \<open>folderPath\<close>. For an empty \<open>kbId\<close> or an empty
  path the guard at the head of both functions answers \<open>false\<close> and none, whatever is
  registered.
\<close>

theorem optimistic_folder_lookup:
  "(kbId = [] \<or> targetFolderPath = [] \<longrightarrow>
      \<not> isDescendantOfOptimisticFolder entries kbId targetFolderPath
      \<and> getOptimisticAncestorFolder entries kbId targetFolderPath = None)
   \<and> (kbId \<noteq> [] \<and> targetFolderPath \<noteq> [] \<longrightarrow>
      (isDescendantOfOptimisticFolder entries kbId targetFolderPath \<longleftrightarrow>
         (\<exists>e \<in> snd ` set entries. fe_kbId e = kbId
            \<and> matchesAtBoundary (normalizeTarget targetFolderPath) (fe_folderPath e)))
      \<and> (\<forall>r. getOptimisticAncestorFolder entries kbId targetFolderPath = Some r \<longrightarrow>
            r \<in> snd ` set entries \<and> fe_kbId r = kbId
            \<and> matchesAtBoundary (normalizeTarget targetFolderPath) (fe_folderPath r)
            \<and> (\<forall>e \<in> snd ` set entries. fe_kbId e = kbId
                  \<and> matchesAtBoundary (normalizeTarget targetFolderPath) (fe_folderPath e)
                  \<longrightarrow> length (fe_folderPath e) \<le> length (fe_folderPath r)))
      \<and> (getOptimisticAncestorFolder entries kbId targetFolderPath = None \<longleftrightarrow>
            (\<forall>e \<in> snd ` set entries. fe_kbId e = kbId
                  \<and> matchesAtBoundary (normalizeTarget targetFolderPath) (fe_folderPath e)
                  \<longrightarrow> fe_folderPath e = [])))"
proof -
  let ?t = "normalizeTarget targetFolderPath"
  let ?es = "filter (\<lambda>entry. fe_kbId entry = kbId) (map snd entries)"
  have m: "matchesAtBoundary t p = pathMatches t p" for t p
    by (simp add: matchesAtBoundary_def pathMatches_boundary)
  have set_es: "set ?es = {e \<in> snd ` set entries. fe_kbId e = kbId}"
    by auto
  have guard: "kbId = [] \<or> targetFolderPath = [] \<Longrightarrow>
      \<not> isDescendantOfOptimisticFolder entries kbId targetFolderPath
      \<and> getOptimisticAncestorFolder entries kbId targetFolderPath = None"
    by (auto simp: isDescendantOfOptimisticFolder_def getOptimisticAncestorFolder_def)
  have char: "case ancestorLoop ?t ?es None 0 of
      None \<Rightarrow> (\<forall>e \<in> set ?es. pathMatches ?t (fe_folderPath e) \<longrightarrow> length (fe_folderPath e) \<le> 0)
    | Some r \<Rightarrow> (r \<in> set ?es \<and> pathMatches ?t (fe_folderPath r) \<and> 0 < length (fe_folderPath r))
        \<and> (\<forall>e \<in> set ?es. pathMatches ?t (fe_folderPath e) \<longrightarrow> length (fe_folderPath e) \<le> length (fe_folderPath r))"
    using ancestorLoop_char[where best=None and n=0 and t="?t" and es="?es"] by (auto split: option.splits)
  have main: "kbId \<noteq> [] \<and> targetFolderPath \<noteq> [] \<Longrightarrow>
      (isDescendantOfOptimisticFolder entries kbId targetFolderPath \<longleftrightarrow>
         (\<exists>e \<in> snd ` set entries. fe_kbId e = kbId \<and> matchesAtBoundary ?t (fe_folderPath e)))
      \<and> (\<forall>r. getOptimisticAncestorFolder entries kbId targetFolderPath = Some r \<longrightarrow>
            r \<in> snd ` set entries \<and> fe_kbId r = kbId
            \<and> matchesAtBoundary ?t (fe_folderPath r)
            \<and> (\<forall>e \<in> snd ` set entries. fe_kbId e = kbId
                  \<and> matchesAtBoundary ?t (fe_folderPath e)
                  \<longrightarrow> length (fe_folderPath e) \<le> length (fe_folderPath r)))
      \<and> (getOptimisticAncestorFolder entries kbId targetFolderPath = None \<longleftrightarrow>
            (\<forall>e \<in> snd ` set entries. fe_kbId e = kbId
                  \<and> matchesAtBoundary ?t (fe_folderPath e)
                  \<longrightarrow> fe_folderPath e = []))"
  proof -
    assume ne: "kbId \<noteq> [] \<and> targetFolderPath \<noteq> []"
    then have d: "isDescendantOfOptimisticFolder entries kbId targetFolderPath = descendantLoop ?t ?es"
      and a: "getOptimisticAncestorFolder entries kbId targetFolderPath = ancestorLoop ?t ?es None 0"
      by (simp_all add: isDescendantOfOptimisticFolder_def getOptimisticAncestorFolder_def)
    have c1: "descendantLoop ?t ?es \<longleftrightarrow>
         (\<exists>e \<in> snd ` set entries. fe_kbId e = kbId \<and> matchesAtBoundary ?t (fe_folderPath e))"
      unfolding descendantLoop_iff m set_es by auto
    have c2: "\<forall>r. ancestorLoop ?t ?es None 0 = Some r \<longrightarrow>
            r \<in> snd ` set entries \<and> fe_kbId r = kbId
            \<and> matchesAtBoundary ?t (fe_folderPath r)
            \<and> (\<forall>e \<in> snd ` set entries. fe_kbId e = kbId
                  \<and> matchesAtBoundary ?t (fe_folderPath e)
                  \<longrightarrow> length (fe_folderPath e) \<le> length (fe_folderPath r))"
      using char unfolding m set_es by (auto split: option.splits)
    have c3: "ancestorLoop ?t ?es None 0 = None \<longleftrightarrow>
            (\<forall>e \<in> snd ` set entries. fe_kbId e = kbId
                  \<and> matchesAtBoundary ?t (fe_folderPath e)
                  \<longrightarrow> fe_folderPath e = [])"
    proof (cases "ancestorLoop ?t ?es None 0")
      case None
      with char show ?thesis unfolding m set_es by auto
    next
      case (Some r)
      with char have r: "r \<in> set ?es" "pathMatches ?t (fe_folderPath r)"
        and mx: "\<forall>e \<in> set ?es. pathMatches ?t (fe_folderPath e) \<longrightarrow> length (fe_folderPath e) \<le> length (fe_folderPath r)"
        by auto
      from Some char have "fe_folderPath r \<noteq> []"
        by auto
      with r Some show ?thesis unfolding m set_es by auto
    qed
    show ?thesis unfolding d a using c1 c2 c3 by blast
  qed
  from guard main show ?thesis by blast
qed


text \<open>
  With \<open>/A\<close> and \<open>/A/B\<close> registered, the ancestor of \<open>/A/B/x\<close> is the \<open>/A/B\<close> entry.
\<close>

theorem optimistic_folder_lookup_witness:
  "isDescendantOfOptimisticFolder exampleRegistry ''kb'' ''/A/B/x''
   \<and> getOptimisticAncestorFolder exampleRegistry ''kb'' ''/A/B/x''
       = Some \<lparr>fe_kbId = ''kb'', fe_folderId = ''b'', fe_folderPath = ''/A/B'',
           fe_createdAt = 7, fe_rootFolderIds = [''a'', ''b'']\<rparr>
   \<and> matchesAtBoundary (normalizeTarget ''/A/B/x'') ''/A/B''
   \<and> matchesAtBoundary (normalizeTarget ''/A/B/x'') ''/A''
   \<and> \<not> isDescendantOfOptimisticFolder exampleRegistry ''kb'' ''/Ax''
   \<and> \<not> isDescendantOfOptimisticFolder exampleRegistry ''kb'' []"
  using optimistic_folder_lookup [of "''kb''" "''/A/B/x''" exampleRegistry]
  by (simp add: exampleRegistry_eq isDescendantOfOptimisticFolder_def
      getOptimisticAncestorFolder_def normalizeTarget_def pathMatches_def matchesAtBoundary_def)

text \<open>
  The claim without the guard fails at the empty path: it normalizes to \<open>/\<close>, the path
  registered for the folder \<open>v1.0\<close>, and both lookups still answer \<open>false\<close> and none.
\<close>

theorem isDescendant_empty_path_counterexample:
  "dottedRegistry =
     [(''kb-f'', \<lparr>fe_kbId = ''kb'', fe_folderId = ''f'', fe_folderPath = ''/'',
         fe_createdAt = 7, fe_rootFolderIds = [''f'']\<rparr>)]
   \<and> normalizeTarget [] = ''/''
   \<and> matchesAtBoundary (normalizeTarget []) ''/''
   \<and> isDescendantOfOptimisticFolder dottedRegistry ''kb'' [] = False
   \<and> getOptimisticAncestorFolder dottedRegistry ''kb'' [] = None"
  by (simp add: dottedRegistry_def markFoldersAsOptimisticallyIndexed_def markFolder_def
      initialStore_def getFolderPathFromName_def truthy_def orEmpty_def
      isDescendantOfOptimisticFolder_def getOptimisticAncestorFolder_def
      normalizeTarget_def matchesAtBoundary_def)

section \<open>Status resolution\<close>










section \<open>Persisting and restoring the caches\<close>




section \<open>Draining the delete queue\<close>

lemma enqueueAll_queue:
  "queueData (enqueueAll as st)
     = (queueData st)\<lparr> dq_queue := dq_queue (queueData st) @ map arrivalRequest as \<rparr>"
  by (induction as st rule: enqueueAll.induct)
     (simp_all add: queueDeleteRequest_def arrivalRequest_def)

lemma enqueueAll_currentKB: "currentKB (enqueueAll as st) = currentKB st"
  by (induction as st rule: enqueueAll.induct) (simp_all add: queueDeleteRequest_def)

lemma drainLoop_Cons:
  "fst (drainLoop del arrivals i (r # reqs) st)
     = (r, del (dr_kbId r) (dr_resourcePath r))
       # fst (drainLoop del arrivals (Suc i) reqs
               (removeFromQueue (dr_id r) (enqueueAll (arrivals i) st)))"
  "snd (drainLoop del arrivals i (r # reqs) st)
     = snd (drainLoop del arrivals (Suc i) reqs
               (removeFromQueue (dr_id r) (enqueueAll (arrivals i) st)))"
  by (simp_all add: Let_def split_beta)

lemma drainLoop_calls:
  "map fst (fst (drainLoop del arrivals i reqs st)) = reqs"
  by (induction reqs arbitrary: i st) (simp_all add: drainLoop_Cons del: drainLoop.simps(2))

lemma drainLoop_outcomes:
  "map snd (fst (drainLoop del arrivals i reqs st))
     = map (\<lambda>r. del (dr_kbId r) (dr_resourcePath r)) reqs"
  by (induction reqs arbitrary: i st) (simp_all add: drainLoop_Cons del: drainLoop.simps(2))

lemma drainLoop_processing:
  "dq_processing (queueData (snd (drainLoop del arrivals i reqs st)))
     = dq_processing (queueData st)"
  by (induction reqs arbitrary: i st)
     (simp_all add: drainLoop_Cons enqueueAll_queue removeFromQueue_def del: drainLoop.simps(2))

lemma drainLoop_queue:
  assumes "dq_queue (queueData st) = filter (\<lambda>x. dr_id x \<notin> R) reqs @ ex"
      and "\<forall>x \<in> set ex. dr_id x \<notin> dr_id ` set reqs"
      and "\<forall>j. \<forall>a \<in> set (arrivals j). dr_id (arrivalRequest a) \<notin> dr_id ` set reqs"
  shows "dq_queue (queueData (snd (drainLoop del arrivals i reqs st)))
           = ex @ concat (map (\<lambda>j. map arrivalRequest (arrivals j)) [i ..< i + length reqs])"
  using assms
proof (induction reqs arbitrary: st R ex i)
  case Nil
  then show ?case by simp
next
  case (Cons r reqs)
  let ?new = "map arrivalRequest (arrivals i)"
  let ?st2 = "removeFromQueue (dr_id r) (enqueueAll (arrivals i) st)"
  have ex: "filter (\<lambda>x. dr_id x \<noteq> dr_id r) ex = ex"
    using Cons.prems(2) by (auto simp: filter_id_conv)
  have new: "filter (\<lambda>x. dr_id x \<noteq> dr_id r) ?new = ?new"
    using Cons.prems(3) by (auto simp: filter_id_conv)
  have q: "dq_queue (queueData ?st2)
             = filter (\<lambda>x. dr_id x \<notin> insert (dr_id r) R) reqs @ (ex @ ?new)"
    by (simp add: removeFromQueue_def enqueueAll_queue Cons.prems(1) ex new conj_commute)
  have e2: "\<forall>x \<in> set (ex @ ?new). dr_id x \<notin> dr_id ` set reqs"
    using Cons.prems(2,3) by auto
  have a2: "\<forall>j. \<forall>a \<in> set (arrivals j). dr_id (arrivalRequest a) \<notin> dr_id ` set reqs"
    using Cons.prems(3) by auto
  have "dq_queue (queueData (snd (drainLoop del arrivals (Suc i) reqs ?st2)))
          = (ex @ ?new) @ concat (map (\<lambda>j. map arrivalRequest (arrivals j))
                                  [Suc i ..< Suc i + length reqs])"
    by (rule Cons.IH [OF q e2 a2])
  moreover have "[i ..< i + length (r # reqs)] = i # [Suc i ..< Suc i + length reqs]"
    by (subst upt_conv_Cons) simp_all
  ultimately show ?case
    by (simp only: drainLoop_Cons list.map concat.simps append_assoc)
qed

lemma show_nat_digits:
  "show_nat 5 = ''5''" "show_nat 6 = ''6''" "show_nat 7 = ''7''"
  by code_simp+

lemma drainLoop_others:
  "currentKB (snd (drainLoop del arrivals i reqs st)) = currentKB st"
  by (induction reqs arbitrary: i st)
     (simp_all add: drainLoop_Cons enqueueAll_currentKB removeFromQueue_def
        del: drainLoop.simps(2))

lemma processQueue_calls_subset:
  "fst ` set (fst (processQueue del arrivals st)) \<subseteq> set (dq_queue (queueData st))"
proof -
  let ?d = "drainLoop del arrivals 0 (dq_queue (queueData st)) (setQueueProcessing True st)"
  have "set (map fst (fst ?d)) = set (dq_queue (queueData st))"
    by (simp only: drainLoop_calls)
  then have "fst ` set (fst ?d) \<subseteq> set (dq_queue (queueData st))"
    by simp
  then show ?thesis
    by (simp add: processQueue_def split_beta)
qed

lemma queuedStore_fields:
  "dq_queue (queueData queuedStore)
     = [newDeleteRequest ''f1'' ''one.txt'' ''kb-1'' 5,
        newDeleteRequest ''f2'' ''two.txt'' ''kb-1'' 6]"
  "dq_processing (queueData queuedStore) = False"
  "currentKB queuedStore = Some realKB"
  by (simp_all add: queuedStore_def queueDeleteRequest_def initialStore_def)

text \<open>
  C4. A drain that starts (there is a current KB id, no drain is in progress and the queue
  has items) calls the deletion service once for every request of the queue, one call
  after the other in the order of the queue, which is the order of the
  \<open>queueDeleteRequest\<close> calls; whether a call resolved or rejected, its request is no longer
  in the queue when the drain ends, and a later drain does not attempt it again. The
  drain ends with the processing flag cleared and a queue that holds exactly the requests
  that were queued while it ran (their ids are fresh: none is the id of a request being
  drained).
\<close>

theorem processQueue_fifo:
  assumes kb: "truthy (map_option kb_id (currentKB st))"
      and idle: "\<not> dq_processing (queueData st)"
      and items: "dq_queue (queueData st) \<noteq> []"
      and fresh: "\<forall>j. \<forall>a \<in> set (arrivals j).
                    dr_id (arrivalRequest a) \<notin> dr_id ` set (dq_queue (queueData st))"
  shows "dq_queue (queueData (enqueueAll as st))
           = dq_queue (queueData st) @ map arrivalRequest as
         \<and> map fst (fst (processQueue del arrivals st)) = dq_queue (queueData st)
         \<and> map snd (fst (processQueue del arrivals st))
             = map (\<lambda>r. del (dr_kbId r) (dr_resourcePath r)) (dq_queue (queueData st))
         \<and> dq_queue (queueData (snd (processQueue del arrivals st)))
             = concat (map (\<lambda>j. map arrivalRequest (arrivals j))
                         [0 ..< length (dq_queue (queueData st))])
         \<and> (\<forall>r \<in> set (dq_queue (queueData st)).
               r \<notin> set (dq_queue (queueData (snd (processQueue del arrivals st))))
               \<and> r \<notin> fst ` set (fst (processQueue del' arrivals'
                                         (snd (processQueue del arrivals st)))))
         \<and> \<not> dq_processing (queueData (snd (processQueue del arrivals st)))"
proof -
  let ?q = "dq_queue (queueData st)"
  let ?d = "drainLoop del arrivals 0 ?q (setQueueProcessing True st)"
  let ?st' = "snd (processQueue del arrivals st)"
  have pq: "processQueue del arrivals st = (fst ?d, setQueueProcessing False (snd ?d))"
    using kb idle items by (simp add: processQueue_def split_beta)
  have q0: "dq_queue (queueData (setQueueProcessing True st))
              = filter (\<lambda>x. dr_id x \<notin> {}) ?q @ []"
    by (simp add: setQueueProcessing_def)
  have final: "dq_queue (queueData (snd ?d))
                 = [] @ concat (map (\<lambda>j. map arrivalRequest (arrivals j)) [0 ..< 0 + length ?q])"
    by (rule drainLoop_queue [OF q0]) (use fresh in auto)
  have c1: "dq_queue (queueData (enqueueAll as st)) = ?q @ map arrivalRequest as"
    by (simp add: enqueueAll_queue)
  have c2: "map fst (fst (processQueue del arrivals st)) = ?q"
    by (simp add: pq drainLoop_calls)
  have c3: "map snd (fst (processQueue del arrivals st))
              = map (\<lambda>r. del (dr_kbId r) (dr_resourcePath r)) ?q"
    by (simp add: pq drainLoop_outcomes)
  have c4: "dq_queue (queueData ?st')
              = concat (map (\<lambda>j. map arrivalRequest (arrivals j)) [0 ..< length ?q])"
    using final by (simp add: pq setQueueProcessing_def)
  have notin: "r \<notin> set (dq_queue (queueData ?st'))" if "r \<in> set ?q" for r
  proof
    assume "r \<in> set (dq_queue (queueData ?st'))"
    then obtain j a where "a \<in> set (arrivals j)" "r = arrivalRequest a"
      unfolding c4 by auto
    with fresh that show False by auto
  qed
  have again: "fst ` set (fst (processQueue del' arrivals' ?st'))
                 \<subseteq> set (dq_queue (queueData ?st'))"
    by (rule processQueue_calls_subset)
  have c5: "\<forall>r \<in> set ?q. r \<notin> set (dq_queue (queueData ?st'))
               \<and> r \<notin> fst ` set (fst (processQueue del' arrivals' ?st'))"
    using notin again by blast
  have c6: "\<not> dq_processing (queueData ?st')"
    by (simp add: pq setQueueProcessing_def)
  from c1 c2 c3 c4 c5 c6 show ?thesis by blast
qed

text \<open>
  The example drain: \<open>one.txt\<close> is deleted, the deletion of \<open>two.txt\<close> fails, both leave the
  queue, and the request that arrived meanwhile is what remains.
\<close>

theorem processQueue_fifo_witness:
  "fst (processQueue failSecond lateArrival queuedStore)
     = [(newDeleteRequest ''f1'' ''one.txt'' ''kb-1'' 5, True),
        (newDeleteRequest ''f2'' ''two.txt'' ''kb-1'' 6, False)]
   \<and> dq_queue (queueData (snd (processQueue failSecond lateArrival queuedStore)))
     = [newDeleteRequest ''f3'' ''three.txt'' ''kb-1'' 7]
   \<and> dq_processing (queueData (snd (processQueue failSecond lateArrival queuedStore))) = False
   \<and> dr_id (newDeleteRequest ''f1'' ''one.txt'' ''kb-1'' 5) = ''delete-f1-5''"
proof -
  have kb: "truthy (map_option kb_id (currentKB queuedStore))"
    by (simp add: queuedStore_fields realKB_def truthy_def)
  have idle: "\<not> dq_processing (queueData queuedStore)"
    by (simp add: queuedStore_fields)
  have items: "dq_queue (queueData queuedStore) \<noteq> []"
    by (simp add: queuedStore_fields)
  have fresh: "\<forall>j. \<forall>a \<in> set (lateArrival j).
                 dr_id (arrivalRequest a) \<notin> dr_id ` set (dq_queue (queueData queuedStore))"
    by (simp add: queuedStore_fields lateArrival_def arrivalRequest_def newDeleteRequest_def)
  note r = processQueue_fifo
    [OF kb idle items fresh, where del = failSecond and as = "[]" and del' = failSecond
      and arrivals' = lateArrival]
  from r have m1: "map fst (fst (processQueue failSecond lateArrival queuedStore))
                     = dq_queue (queueData queuedStore)"
    by blast
  from r have m2: "map snd (fst (processQueue failSecond lateArrival queuedStore))
                     = map (\<lambda>r. failSecond (dr_kbId r) (dr_resourcePath r))
                         (dq_queue (queueData queuedStore))"
    by blast
  from r have m3: "dq_queue (queueData (snd (processQueue failSecond lateArrival queuedStore)))
                     = concat (map (\<lambda>j. map arrivalRequest (lateArrival j))
                                 [0 ..< length (dq_queue (queueData queuedStore))])"
    by blast
  from r have flag: "dq_processing
                       (queueData (snd (processQueue failSecond lateArrival queuedStore))) = False"
    by blast
  have "fst (processQueue failSecond lateArrival queuedStore)
          = zip (map fst (fst (processQueue failSecond lateArrival queuedStore)))
                (map snd (fst (processQueue failSecond lateArrival queuedStore)))"
    by (simp add: zip_map_fst_snd)
  then have calls: "fst (processQueue failSecond lateArrival queuedStore)
     = [(newDeleteRequest ''f1'' ''one.txt'' ''kb-1'' 5, True),
        (newDeleteRequest ''f2'' ''two.txt'' ''kb-1'' 6, False)]"
    unfolding m1 m2 by (simp add: queuedStore_fields failSecond_def newDeleteRequest_def)
  have left: "dq_queue (queueData (snd (processQueue failSecond lateArrival queuedStore)))
     = [newDeleteRequest ''f3'' ''three.txt'' ''kb-1'' 7]"
    unfolding m3 by (simp add: queuedStore_fields lateArrival_def arrivalRequest_def upt_rec)
  have ident: "dr_id (newDeleteRequest ''f1'' ''one.txt'' ''kb-1'' 5) = ''delete-f1-5''"
    by (simp add: newDeleteRequest_def show_nat_digits)
  from calls left flag ident show ?thesis by simp
qed

section \<open>The root poller\<close>











section \<open>Error notifications\<close>


















section \<open>Rollback of a failed creation\<close>

text \<open>
  C1. The claim: when KB creation fails after the optimistic phase, no root or folder
  status listing keyed by the temporary id remains, the folder registry entries of the
  temporary id are deleted, the sync state is \<open>idle\<close>, and its \<open>kbId\<close> and the current KB are
  cleared. The rollback of the source, run on the pending creation above, removes the
  listings and clears the current KB; but it calls \<open>setSyncCompleted("")\<close>, so the sync
  state is \<open>synced\<close> and still remembers the temporary id, and it leaves the folder
  registry entry of the temporary id in place.
\<close>

theorem rollback_leaves_synced_state:
  "syncStateData (snd (snd pendingCreation))
     = \<lparr> ss_state = SyncPending, ss_kbId = Some ''temp-5'' \<rparr>
   \<and> syncStateData (onError (Some (fst pendingCreation)) (snd (snd pendingCreation)))
     = \<lparr> ss_state = SyncSynced, ss_kbId = Some ''temp-5'' \<rparr>
   \<and> folderRegistryData (onError (Some (fst pendingCreation)) (snd (snd pendingCreation)))
     = [(''temp-5-a'',
         \<lparr> fe_kbId = ''temp-5'', fe_folderId = ''a'', fe_folderPath = ''/A'',
           fe_createdAt = 5, fe_rootFolderIds = [''a''] \<rparr>)]
   \<and> kbResources (onError (Some (fst pendingCreation)) (snd (snd pendingCreation))) ''temp-5''
     = None
   \<and> kbFileStatus (onError (Some (fst pendingCreation)) (snd (snd pendingCreation)))
       (''temp-5'', ''/A'')
     = None
   \<and> currentKB (onError (Some (fst pendingCreation)) (snd (snd pendingCreation))) = None"
  by code_simp

section \<open>Migration to the real id\<close>

lemma removeKBQueries_fields:
  "kbResources (removeKBQueries kbId st) k = (if k = kbId then None else kbResources st k)"
  "kbFileStatus (removeKBQueries kbId st) (k, p)
     = (if k = kbId then None else kbFileStatus st (k, p))"
  "queueData (removeKBQueries kbId st) = queueData st"
  "folderRegistryData (removeKBQueries kbId st) = folderRegistryData st"
  "syncStateData (removeKBQueries kbId st) = syncStateData st"
  "currentKB (removeKBQueries kbId st) = currentKB st"
  by (simp_all add: removeKBQueries_def)

lemma transferFolderListings_others:
  "kbResources (transferFolderListings a b fs st) = kbResources st"
  "queueData (transferFolderListings a b fs st) = queueData st"
  "folderRegistryData (transferFolderListings a b fs st) = folderRegistryData st"
  "syncStateData (transferFolderListings a b fs st) = syncStateData st"
  "currentKB (transferFolderListings a b fs st) = currentKB st"
  by (induction fs arbitrary: st; simp split: option.splits)+

lemma transferFolderListings_status:
  assumes "a \<noteq> b"
  shows "kbFileStatus (transferFolderListings a b fs st) (k, p)
           = (if k = b \<and> p \<in> ff_folderPath ` set fs \<and> kbFileStatus st (a, p) \<noteq> None
              then kbFileStatus st (a, p) else kbFileStatus st (k, p))"
  using assms
proof (induction fs arbitrary: st)
  case Nil
  then show ?case by simp
next
  case (Cons f fs)
  show ?case
  proof (cases "kbFileStatus st (a, ff_folderPath f)")
    case None
    with Cons show ?thesis by auto
  next
    case (Some d)
    with Cons show ?thesis by auto
  qed
qed

lemma markFolder_map_of:
  "map_of (fold (markFolder kbId sel names now) ids entries) (kbId @ ''-'' @ folderId)
     = (if folderId \<in> set ids \<and> truthy (names folderId)
        then Some \<lparr> fe_kbId = kbId, fe_folderId = folderId,
                    fe_folderPath = getFolderPathFromName (orEmpty (names folderId)),
                    fe_createdAt = now, fe_rootFolderIds = sel \<rparr>
        else map_of entries (kbId @ ''-'' @ folderId))"
  by (induction ids arbitrary: entries) (auto simp: markFolder_def update_conv')

lemma markFolder_entries:
  "(k, e) \<in> set (fold (markFolder kbId sel names now) ids entries) \<Longrightarrow>
     (k, e) \<in> set entries \<or> fe_kbId e = kbId"
proof (induction ids arbitrary: entries)
  case Nil
  then show ?case by simp
next
  case (Cons i ids)
  have u: "(k, e) \<in> set (AList.update k' v al) \<Longrightarrow> (k, e) \<in> set al \<or> e = v"
    for k' v and al :: "(string \<times> OptimisticFolderEntry) list"
    by (induction al) (auto split: if_splits)
  from Cons.prems have "(k, e) \<in> set (fold (markFolder kbId sel names now) ids
                                          (markFolder kbId sel names now i entries))"
    by simp
  then have "(k, e) \<in> set (markFolder kbId sel names now i entries) \<or> fe_kbId e = kbId"
    by (rule Cons.IH)
  then show ?case
    by (auto simp: markFolder_def dest!: u split: if_splits)
qed


lemmas onSuccess_unfold =
  onSuccess_def Let_def removeKBQueries_fields transferFolderListings_others
  markFoldersAsOptimisticallyIndexed_def clearOptimisticFoldersForKB_def
  updateQueueKBId_def setSyncCompleted_def updateSyncState_def

lemma onSuccess_kbResources:
  "kbResources (onSuccess kb resourceIds files (Some ctx) now st) k
     = (if k = kb_id (ctx_optimisticKB ctx) then None
        else if k = kb_id kb \<and> kbResources st (kb_id (ctx_optimisticKB ctx)) \<noteq> None
        then kbResources st (kb_id (ctx_optimisticKB ctx))
        else kbResources st k)"
  by (auto simp: onSuccess_unfold split: option.splits)

lemma onSuccess_kbFileStatus:
  assumes "kb_id kb \<noteq> kb_id (ctx_optimisticKB ctx)"
  shows "kbFileStatus (onSuccess kb resourceIds files (Some ctx) now st) (k, p)
     = (if k = kb_id (ctx_optimisticKB ctx) then None
        else if k = kb_id kb \<and> p \<in> ff_folderPath ` set (ctx_folderFiles ctx)
                \<and> kbFileStatus st (kb_id (ctx_optimisticKB ctx), p) \<noteq> None
        then kbFileStatus st (kb_id (ctx_optimisticKB ctx), p)
        else kbFileStatus st (k, p))"
proof -
  have neq: "kb_id (ctx_optimisticKB ctx) \<noteq> kb_id kb"
    using assms by simp
  show ?thesis
    by (auto simp: onSuccess_unfold transferFolderListings_status [OF neq]
        split: option.splits)
qed

lemma onSuccess_queue:
  "dq_queue (queueData (onSuccess kb resourceIds files (Some ctx) now st))
     = map (\<lambda>request. if dr_kbId request = kb_id (ctx_optimisticKB ctx)
                       then request\<lparr> dr_kbId := kb_id kb \<rparr> else request)
         (dq_queue (queueData st))"
  by (simp add: onSuccess_unfold split: option.splits)

lemma onSuccess_registry:
  assumes "selectedOfType Directory resourceIds files \<noteq> []"
  shows "folderRegistryData (onSuccess kb resourceIds files (Some ctx) now st)
     = fold (markFolder (kb_id kb) (selectedOfType Directory resourceIds files)
               (folderNameMapOf (selectedOfType Directory resourceIds files) files) now)
         (selectedOfType Directory resourceIds files)
         (filter (\<lambda>(entryKey, entry). fe_kbId entry \<noteq> kb_id (ctx_optimisticKB ctx))
            (folderRegistryData st))"
  using assms by (simp add: onSuccess_unfold split: option.splits)

lemma onSuccess_sync:
  "syncStateData (onSuccess kb resourceIds files (Some ctx) now st)
     = \<lparr> ss_state = SyncSynced,
         ss_kbId = js_or (Some (kb_id kb)) (ss_kbId (syncStateData st)) \<rparr>"
  "currentKB (onSuccess kb resourceIds files (Some ctx) now st) = Some kb"
  by (simp_all add: onSuccess_unfold split: option.splits)

text \<open>
  C3 (as amended). When KB creation succeeds with a real id that differs from the temporary
  one: the root listing and every folder status listing are absent under the temporary
  id, the root listing that was there is under the real id, and so is the listing of
  every folder of the creation context (the folders whose contents were cached when the
  creation started or were fetched in the background since); every queued request of the
  temporary id has the real id afterward and the others are unchanged, in the same order;
  and when the ids the mutation returned hold a directory, the folder registry has no
  entry of the temporary id and holds, under the real id, each of these directories that
  has a name. The sync state is \<open>synced\<close> under the real id and the real KB is current.
\<close>

theorem onSuccess_migrates:
  assumes real: "kb_id kb \<noteq> kb_id (ctx_optimisticKB ctx)"
  shows
    "kbResources (onSuccess kb resourceIds files (Some ctx) now st)
       (kb_id (ctx_optimisticKB ctx)) = None
     \<and> (\<forall>data. kbResources st (kb_id (ctx_optimisticKB ctx)) = Some data \<longrightarrow>
           kbResources (onSuccess kb resourceIds files (Some ctx) now st) (kb_id kb)
             = Some data)
     \<and> (\<forall>folderPath.
           kbFileStatus (onSuccess kb resourceIds files (Some ctx) now st)
             (kb_id (ctx_optimisticKB ctx), folderPath) = None)
     \<and> (\<forall>folder \<in> set (ctx_folderFiles ctx). \<forall>data.
           kbFileStatus st (kb_id (ctx_optimisticKB ctx), ff_folderPath folder) = Some data \<longrightarrow>
           kbFileStatus (onSuccess kb resourceIds files (Some ctx) now st)
             (kb_id kb, ff_folderPath folder) = Some data)
     \<and> dq_queue (queueData (onSuccess kb resourceIds files (Some ctx) now st))
         = map (\<lambda>request. if dr_kbId request = kb_id (ctx_optimisticKB ctx)
                           then request\<lparr> dr_kbId := kb_id kb \<rparr> else request)
             (dq_queue (queueData st))
     \<and> (\<forall>request \<in> set (dq_queue (queueData
                                  (onSuccess kb resourceIds files (Some ctx) now st))).
           dr_kbId request \<noteq> kb_id (ctx_optimisticKB ctx))
     \<and> (selectedOfType Directory resourceIds files \<noteq> [] \<longrightarrow>
           (\<forall>(entryKey, entry)
               \<in> set (folderRegistryData (onSuccess kb resourceIds files (Some ctx) now st)).
              fe_kbId entry \<noteq> kb_id (ctx_optimisticKB ctx))
           \<and> (\<forall>folderId \<in> set (selectedOfType Directory resourceIds files). \<forall>item.
                js_find (\<lambda>f. fi_id f = folderId) files = Some item \<and> fi_name item \<noteq> [] \<longrightarrow>
                map_of (folderRegistryData (onSuccess kb resourceIds files (Some ctx) now st))
                  (kb_id kb @ ''-'' @ folderId)
                = Some \<lparr> fe_kbId = kb_id kb, fe_folderId = folderId,
                         fe_folderPath = getFolderPathFromName (fi_name item),
                         fe_createdAt = now,
                         fe_rootFolderIds = selectedOfType Directory resourceIds files \<rparr>))
     \<and> ss_state (syncStateData (onSuccess kb resourceIds files (Some ctx) now st)) = SyncSynced
     \<and> (kb_id kb \<noteq> [] \<longrightarrow>
           ss_kbId (syncStateData (onSuccess kb resourceIds files (Some ctx) now st))
             = Some (kb_id kb))
     \<and> currentKB (onSuccess kb resourceIds files (Some ctx) now st) = Some kb"
proof -
  let ?st' = "onSuccess kb resourceIds files (Some ctx) now st"
  let ?t = "kb_id (ctx_optimisticKB ctx)"
  let ?sel = "selectedOfType Directory resourceIds files"
  have c1: "kbResources ?st' ?t = None"
    by (simp add: onSuccess_kbResources)
  have c2: "\<forall>data. kbResources st ?t = Some data \<longrightarrow> kbResources ?st' (kb_id kb) = Some data"
    using real by (simp add: onSuccess_kbResources)
  have c3: "\<forall>folderPath. kbFileStatus ?st' (?t, folderPath) = None"
    by (simp add: onSuccess_kbFileStatus [OF real])
  have c4: "\<forall>folder \<in> set (ctx_folderFiles ctx). \<forall>data.
           kbFileStatus st (?t, ff_folderPath folder) = Some data \<longrightarrow>
           kbFileStatus ?st' (kb_id kb, ff_folderPath folder) = Some data"
    using real by (simp add: onSuccess_kbFileStatus [OF real])
  have c5: "dq_queue (queueData ?st')
         = map (\<lambda>request. if dr_kbId request = ?t
                           then request\<lparr> dr_kbId := kb_id kb \<rparr> else request)
             (dq_queue (queueData st))"
    by (rule onSuccess_queue)
  have c6: "\<forall>request \<in> set (dq_queue (queueData ?st')). dr_kbId request \<noteq> ?t"
    unfolding c5 using real by auto
  have c7: "(\<forall>(entryKey, entry) \<in> set (folderRegistryData ?st'). fe_kbId entry \<noteq> ?t)
           \<and> (\<forall>folderId \<in> set ?sel. \<forall>item.
                js_find (\<lambda>f. fi_id f = folderId) files = Some item \<and> fi_name item \<noteq> [] \<longrightarrow>
                map_of (folderRegistryData ?st') (kb_id kb @ ''-'' @ folderId)
                = Some \<lparr> fe_kbId = kb_id kb, fe_folderId = folderId,
                         fe_folderPath = getFolderPathFromName (fi_name item),
                         fe_createdAt = now, fe_rootFolderIds = ?sel \<rparr>)"
    if sel: "?sel \<noteq> []"
  proof
    show "\<forall>(entryKey, entry) \<in> set (folderRegistryData ?st'). fe_kbId entry \<noteq> ?t"
    proof (clarify)
      fix k e
      assume m: "(k, e) \<in> set (folderRegistryData ?st')" and t: "fe_kbId e = ?t"
      from m have "(k, e) \<in> set (fold (markFolder (kb_id kb) ?sel (folderNameMapOf ?sel files) now)
                                    ?sel
                                    (filter (\<lambda>(entryKey, entry). fe_kbId entry \<noteq> ?t)
                                       (folderRegistryData st)))"
        unfolding onSuccess_registry [OF sel] .
      then have "(k, e) \<in> set (filter (\<lambda>(entryKey, entry). fe_kbId entry \<noteq> ?t)
                                   (folderRegistryData st))
                 \<or> fe_kbId e = kb_id kb"
        by (rule markFolder_entries)
      with t real show False by auto
    qed
  next
    show "\<forall>folderId \<in> set ?sel. \<forall>item.
                js_find (\<lambda>f. fi_id f = folderId) files = Some item \<and> fi_name item \<noteq> [] \<longrightarrow>
                map_of (folderRegistryData ?st') (kb_id kb @ ''-'' @ folderId)
                = Some \<lparr> fe_kbId = kb_id kb, fe_folderId = folderId,
                         fe_folderPath = getFolderPathFromName (fi_name item),
                         fe_createdAt = now, fe_rootFolderIds = ?sel \<rparr>"
      unfolding onSuccess_registry [OF sel] markFolder_map_of
      by (auto simp: folderNameMapOf_def truthy_def orEmpty_def)
  qed
  have c8: "ss_state (syncStateData ?st') = SyncSynced"
    by (simp add: onSuccess_sync)
  have c9: "kb_id kb \<noteq> [] \<longrightarrow> ss_kbId (syncStateData ?st') = Some (kb_id kb)"
    by (simp add: onSuccess_sync js_or_def truthy_def)
  have c10: "currentKB ?st' = Some kb"
    by (simp add: onSuccess_sync)
  from c1 c2 c3 c4 c5 c6 c7 c8 c9 c10 show ?thesis
    by blast
qed

text \<open>
  The pending creation of the example, with a deletion queued meanwhile, is confirmed as
  \<open>kb-1\<close>.
\<close>

theorem onSuccess_migrates_witness:
  "kbResources committed ''temp-5'' = None
   \<and> kbResources committed ''kb-1''
       = Some [exampleFile ''f3'' ''three.txt'' (Some Indexed)]
   \<and> kbFileStatus committed (''temp-5'', ''/A'') = None
   \<and> kbFileStatus committed (''kb-1'', ''/A'')
       = Some [exampleFile ''f1'' ''A/one.txt'' (Some Indexed),
               exampleFile ''f2'' ''A/B/two.txt'' (Some Indexed)]
   \<and> dq_queue (queueData pendingWithDelete) = [newDeleteRequest ''f3'' ''three.txt'' ''temp-5'' 6]
   \<and> dq_queue (queueData committed) = [newDeleteRequest ''f3'' ''three.txt'' ''kb-1'' 6]
   \<and> map_of (folderRegistryData committed) ''kb-1-a''
       = Some \<lparr> fe_kbId = ''kb-1'', fe_folderId = ''a'', fe_folderPath = ''/A'',
                fe_createdAt = 9, fe_rootFolderIds = [''a''] \<rparr>
   \<and> syncStateData committed = \<lparr> ss_state = SyncSynced, ss_kbId = Some ''kb-1'' \<rparr>"
proof -
  have ne: "kb_id realKB \<noteq> kb_id (ctx_optimisticKB (fst pendingCreation))"
    by code_simp
  have ids: "kb_id realKB = ''kb-1''" "kb_id (ctx_optimisticKB (fst pendingCreation)) = ''temp-5''"
    by code_simp+
  note r = onSuccess_migrates
    [OF ne, where resourceIds = "[''a'', ''f3'']" and files = driveListing and now = 9
       and st = pendingWithDelete, folded committed_def, unfolded ids]
  have root: "kbResources pendingWithDelete ''temp-5''
                = Some [exampleFile ''f3'' ''three.txt'' (Some Indexed)]"
    by code_simp
  have folder: "\<lparr> ff_folderId = ''a'', ff_folderPath = ''/A'', ff_fileIds = [''f1'', ''f2''] \<rparr>
                  \<in> set (ctx_folderFiles (fst pendingCreation))"
    by code_simp
  have listing: "kbFileStatus pendingWithDelete (''temp-5'', ''/A'')
                   = Some [exampleFile ''f1'' ''A/one.txt'' (Some Indexed),
                           exampleFile ''f2'' ''A/B/two.txt'' (Some Indexed)]"
    by code_simp
  have queue: "dq_queue (queueData pendingWithDelete)
                 = [newDeleteRequest ''f3'' ''three.txt'' ''temp-5'' 6]"
    by code_simp
  have sel: "selectedOfType Directory [''a'', ''f3''] driveListing = [''a'']"
    by code_simp
  have item: "js_find (\<lambda>f. fi_id f = ''a'') driveListing
                = Some \<lparr> fi_id = ''a'', fi_name = ''A'', fi_type = Directory, fi_size = 0,
                         fi_status = None \<rparr>"
    by code_simp
  have path: "getFolderPathFromName ''A'' = ''/A''"
    by code_simp
  note c1 = r [THEN conjunct1]
  note c2 = r [THEN conjunct2, THEN conjunct1, rule_format]
  note c3 = r [THEN conjunct2, THEN conjunct2, THEN conjunct1, rule_format]
  note c4 = r [THEN conjunct2, THEN conjunct2, THEN conjunct2, THEN conjunct1, rule_format]
  note c5 = r [THEN conjunct2, THEN conjunct2, THEN conjunct2, THEN conjunct2, THEN conjunct1]
  note c7 = r [THEN conjunct2, THEN conjunct2, THEN conjunct2, THEN conjunct2, THEN conjunct2,
               THEN conjunct2, THEN conjunct1, rule_format]
  note c8 = r [THEN conjunct2, THEN conjunct2, THEN conjunct2, THEN conjunct2, THEN conjunct2,
               THEN conjunct2, THEN conjunct2, THEN conjunct1]
  note c9 = r [THEN conjunct2, THEN conjunct2, THEN conjunct2, THEN conjunct2, THEN conjunct2,
               THEN conjunct2, THEN conjunct2, THEN conjunct2, THEN conjunct1, rule_format]
  have w1: "kbResources committed ''temp-5'' = None"
    by (rule c1)
  have w2: "kbResources committed ''kb-1''
              = Some [exampleFile ''f3'' ''three.txt'' (Some Indexed)]"
    by (rule c2 [OF root])
  have w3: "kbFileStatus committed (''temp-5'', ''/A'') = None"
    by (rule c3)
  have w4: "kbFileStatus committed (''kb-1'', ''/A'')
              = Some [exampleFile ''f1'' ''A/one.txt'' (Some Indexed),
                      exampleFile ''f2'' ''A/B/two.txt'' (Some Indexed)]"
    using c4 [OF folder] listing by simp
  have w5: "dq_queue (queueData committed) = [newDeleteRequest ''f3'' ''three.txt'' ''kb-1'' 6]"
    unfolding c5 queue by (simp add: newDeleteRequest_def)
  have nonempty: "selectedOfType Directory [''a'', ''f3''] driveListing \<noteq> []"
    by (simp add: sel)
  have member: "''a'' \<in> set (selectedOfType Directory [''a'', ''f3''] driveListing)"
    by (simp add: sel)
  have w6: "map_of (folderRegistryData committed) ''kb-1-a''
       = Some \<lparr> fe_kbId = ''kb-1'', fe_folderId = ''a'', fe_folderPath = ''/A'',
                fe_createdAt = 9, fe_rootFolderIds = [''a''] \<rparr>"
    using c7 [OF nonempty, THEN conjunct2, rule_format, OF member, of
        "\<lparr> fi_id = ''a'', fi_name = ''A'', fi_type = Directory, fi_size = 0,
           fi_status = None \<rparr>"] item
    by (simp add: sel path)
  have w7: "syncStateData committed = \<lparr> ss_state = SyncSynced, ss_kbId = Some ''kb-1'' \<rparr>"
    using c8 c9 by (cases "syncStateData committed") simp
  from w1 w2 w3 w4 queue w5 w6 w7 show ?thesis by simp
qed

text \<open>
  Not every populated folder status listing is migrated: the listing that expanding
  \<open>A/B\<close> wrote under the temporary id is not in the creation context; it is removed with
  the temporary listings and is not under the real id.
\<close>

theorem expanded_listing_lost_counterexample:
  "kbFileStatus expandedWhilePending (''temp-5'', ''/A/B'')
     = Some [exampleFile ''f2'' ''A/B/two.txt'' (Some Indexed)]
   \<and> kbFileStatus
        (onSuccess realKB [''a'', ''f3''] driveListing (Some (fst pendingCreation)) 9
           expandedWhilePending)
        (''kb-1'', ''/A/B'')
     = None
   \<and> kbFileStatus
        (onSuccess realKB [''a'', ''f3''] driveListing (Some (fst pendingCreation)) 9
           expandedWhilePending)
        (''temp-5'', ''/A/B'')
     = None"
  by code_simp

end
